theory Spec2Isabelle
  imports Main
begin

section \<open>The action handlers of gmx-actions.ts\<close>

text \<open>
  \<^verbatim>\<open>createGmxActions(sdk, gmxDataCache?)\<close> returns twenty actions. Each handler is an
  \<^verbatim>\<open>async\<close> function whose whole body is one \<^verbatim>\<open>try { ... } catch (error) { ... }\<close>.
  The model runs a handler against the answers of its collaborators (the SDK, the data
  cache, the query functions, the transaction queue) and returns two things: the list
  of calls the handler made on them, in order, and the way the handler's promise
  settles. Logging (\<^verbatim>\<open>console.warn\<close>, \<^verbatim>\<open>console.error\<close>) and the handler's local
  \<^verbatim>\<open>memory\<close> variable, which is assigned and never read or stored, are left out; so
  are the argument objects handed to the SDK and the display-only fields of a success
  result (\<^verbatim>\<open>orderDetails\<close>, \<^verbatim>\<open>closeDetails\<close>, \<^verbatim>\<open>swapDetails\<close>, \<^verbatim>\<open>details\<close>).
\<close>

subsection \<open>Thrown values\<close>

text \<open>
  A thrown value is an \<^verbatim>\<open>Error\<close> instance with its message, or some other value,
  given by what \<^verbatim>\<open>String(value)\<close> returns for it. The other value is not \<^verbatim>\<open>null\<close> or
  \<^verbatim>\<open>undefined\<close>, on which \<^verbatim>\<open>error.message\<close> is itself a TypeError.
\<close>

datatype thrown = JsError string | JsValue string

text \<open>\<^verbatim>\<open>error instanceof Error ? error.message : String(error)\<close>\<close>

definition error_text :: "thrown \<Rightarrow> string" where
  "error_text e = (case e of JsError m \<Rightarrow> m | JsValue s \<Rightarrow> s)"

text \<open>
  \<^verbatim>\<open>${error.message || error}\<close>: an empty message is falsy, and an \<^verbatim>\<open>Error\<close> with an
  empty message prints as its name.
\<close>

definition message_or_error :: "thrown \<Rightarrow> string" where
  "message_or_error e =
     (case e of JsError m \<Rightarrow> (if m = [] then ''Error'' else m) | JsValue s \<Rightarrow> s)"

text \<open>\<^verbatim>\<open>error?.message?.includes(needle)\<close>; a value that is no \<^verbatim>\<open>Error\<close> has no message.\<close>

fun is_prefix :: "string \<Rightarrow> string \<Rightarrow> bool" where
  "is_prefix [] ys = True"
| "is_prefix (x # xs) [] = False"
| "is_prefix (x # xs) (y # ys) = (x = y \<and> is_prefix xs ys)"

fun str_includes :: "string \<Rightarrow> string \<Rightarrow> bool" where
  "str_includes [] needle = (needle = [])"
| "str_includes (c # cs) needle = (is_prefix needle (c # cs) \<or> str_includes cs needle)"

definition message_includes :: "thrown \<Rightarrow> string \<Rightarrow> bool" where
  "message_includes e needle =
     (case e of JsError m \<Rightarrow> str_includes m needle | JsValue s \<Rightarrow> False)"

text \<open>\<^verbatim>\<open>promise.catch(error => { throw new Error(f(error)) })\<close>\<close>

definition catch_rethrow :: "(thrown + 'a) \<Rightarrow> (thrown \<Rightarrow> string) \<Rightarrow> thrown + 'a" where
  "catch_rethrow r f = (case r of Inl e \<Rightarrow> Inl (JsError (f e)) | Inr x \<Rightarrow> Inr x)"

subsection \<open>BigInt conversions\<close>

text \<open>
  \<^verbatim>\<open>BigInt(string)\<close>: the string is trimmed; the empty string is 0; a decimal literal
  may carry a sign; \<^verbatim>\<open>0x\<close>, \<^verbatim>\<open>0o\<close> and \<^verbatim>\<open>0b\<close> literals may not; anything else
  throws a SyntaxError. Strings are byte strings here, so only ASCII white space is
  trimmed.
\<close>

definition is_space :: "char \<Rightarrow> bool" where
  "is_space c = (c \<in> set [CHR '' '', CHR 0x09, CHR 0x0A, CHR 0x0B, CHR 0x0C, CHR 0x0D])"

definition trim :: "string \<Rightarrow> string" where
  "trim s = rev (dropWhile is_space (rev (dropWhile is_space s)))"

fun index_of :: "char \<Rightarrow> string \<Rightarrow> nat option" where
  "index_of c [] = None"
| "index_of c (d # ds) = (if c = d then Some 0 else map_option Suc (index_of c ds))"

definition digit_value :: "char \<Rightarrow> nat option" where
  "digit_value c =
     (case index_of c ''0123456789abcdef'' of
        Some d \<Rightarrow> Some d
      | None \<Rightarrow> map_option (\<lambda>d. d + 10) (index_of c ''ABCDEF''))"

fun digits_value :: "nat \<Rightarrow> string \<Rightarrow> nat \<Rightarrow> nat option" where
  "digits_value b [] acc = Some acc"
| "digits_value b (c # cs) acc =
     (case digit_value c of
        None \<Rightarrow> None
      | Some d \<Rightarrow> (if d < b then digits_value b cs (acc * b + d) else None))"

definition parse_radix :: "nat \<Rightarrow> string \<Rightarrow> int option" where
  "parse_radix b ds = (if ds = [] then None else map_option int (digits_value b ds 0))"

definition StringToBigInt :: "string \<Rightarrow> int option" where
  "StringToBigInt s =
     (let t = trim s in
      if t = [] then Some 0
      else if is_prefix ''0x'' t \<or> is_prefix ''0X'' t then parse_radix 16 (drop 2 t)
      else if is_prefix ''0o'' t \<or> is_prefix ''0O'' t then parse_radix 8 (drop 2 t)
      else if is_prefix ''0b'' t \<or> is_prefix ''0B'' t then parse_radix 2 (drop 2 t)
      else if hd t = CHR ''-'' then map_option uminus (parse_radix 10 (tl t))
      else if hd t = CHR ''+'' then parse_radix 10 (tl t)
      else parse_radix 10 t)"

definition BigInt :: "string \<Rightarrow> thrown + int" where
  "BigInt s =
     (case StringToBigInt s of
        Some n \<Rightarrow> Inr n
      | None \<Rightarrow> Inl (JsError (''Cannot convert '' @ s @ '' to a BigInt'')))"

text \<open>
  A schema field declared \<^verbatim>\<open>z.number()\<close> holds a double. \<^verbatim>\<open>BigInt(number)\<close> throws
  a RangeError unless the number is an integer.
\<close>

datatype js_number = Integral int | Fractional

definition BigInt_of_number :: "js_number \<Rightarrow> thrown + int" where
  "BigInt_of_number x =
     (case x of
        Integral n \<Rightarrow> Inr n
      | Fractional \<Rightarrow>
          Inl (JsError ''The number cannot be converted to a BigInt because it is not an integer''))"

text \<open>\<^verbatim>\<open>data.allowedSlippageBps || 125\<close>: zero is falsy.\<close>

definition or_125 :: "js_number \<Rightarrow> js_number" where
  "or_125 x = (if x = Integral 0 then Integral 125 else x)"

text \<open>An optional string field is truthy when it is present and not empty.\<close>

definition truthy :: "string option \<Rightarrow> bool" where
  "truthy s = (s \<noteq> None \<and> s \<noteq> Some [])"

text \<open>\<^verbatim>\<open>${n}\<close> for a length.\<close>

fun show_nat :: "nat \<Rightarrow> string" where
  "show_nat n =
     (if n < 10 then [''0123456789'' ! n]
      else show_nat (n div 10) @ [''0123456789'' ! (n mod 10)])"

subsection \<open>Data read from the backend\<close>

record token =
  symbol :: string
  decimals :: nat
  isSynthetic :: bool
  maxPrice :: "int option"
  minPrice :: "int option"

record market_info =
  name :: string
  indexTokenAddress :: string

record markets_result =
  marketsInfoData :: "(string \<rightharpoonup> market_info) option"
  tokensData :: "(string \<rightharpoonup> token) option"

record tokens_result =
  tr_tokensData :: "(string \<rightharpoonup> token) option"

record position =
  pos_marketAddress :: string
  isLong :: bool
  sizeInUsd :: int
  sizeInTokens :: int
  collateralAmount :: int
  pos_collateralTokenAddress :: string
  markPrice :: int

record positions_result =
  positionsData :: "position list option"

text \<open>What an SDK write resolves with; \<^verbatim>\<open>result?.transactionHash\<close> may be missing.\<close>

record tx_result =
  tx_transactionHash :: "string option"
  tx_hash :: "string option"

text \<open>\<^verbatim>\<open>a || b || null\<close> on optional strings: the first that is present and not empty.\<close>

definition or_else :: "string option \<Rightarrow> string option \<Rightarrow> string option" where
  "or_else a b = (if truthy a then a else if truthy b then b else None)"

subsection \<open>Collaborators\<close>

datatype asset = BTC | ETH

text \<open>The query functions of gmx-queries, one constructor per function and argument.\<close>

datatype query =
    get_portfolio_balance_str
  | get_positions_str
  | get_btc_eth_markets_str
  | get_tokens_data_str
  | get_daily_volumes_str
  | get_orders_str
  | get_trading_history_str
  | get_synth_analysis_str asset
  | get_technical_analysis_str asset

text \<open>The methods of \<^verbatim>\<open>sdk.orders\<close> that send a transaction.\<close>

datatype sdk_write = cancelOrders | long | short | swap | createDecreaseOrder

datatype read_call = getMarketsInfo | getTokensData | getPositions | getPositionsInfo

text \<open>
  What the reading methods answer. The SDK has them under \<^verbatim>\<open>sdk.markets\<close>,
  \<^verbatim>\<open>sdk.tokens\<close> and \<^verbatim>\<open>sdk.positions\<close>; the data cache has methods of the same
  names. A handler calls each at most once, so one answer per method is enough.
\<close>

record reads =
  r_getMarketsInfo :: "thrown + markets_result"
  r_getTokensData :: "thrown + tokens_result"
  r_getPositions :: "thrown + positions_result"
  r_getPositionsInfo :: "thrown + position list"

text \<open>
  The SDK, and with it the functions of gmx-queries and gmx-utils, which are not part
  of the sources at hand and are taken as parameters: the query functions, \<^verbatim>\<open>safeBigInt\<close>,
  \<^verbatim>\<open>formatUsdAmount(x, 2)\<close>, \<^verbatim>\<open>formatTokenAmount(x, decimals, 6)\<close>,
  \<^verbatim>\<open>bigIntToDecimal(x, USD_DECIMALS).toFixed(2)\<close>, the text of the minimum distance for
  a mark price, and the outcome of the double comparison \<^verbatim>\<open>priceDiff < minDistance\<close> for
  a trigger price and a mark price. Each is a function of its arguments. The
  conversion \<^verbatim>\<open>safeBigInt\<close> may throw. So may \<^verbatim>\<open>formatTokenAmount\<close>, which
  \<^verbatim>\<open>swap_tokens\<close> and \<^verbatim>\<open>close_position\<close> first call after their write has resolved.
  The other helper functions are first called before the write is sent, and called
  again after it only on arguments they were called on before; they are taken to
  return.
\<close>

record GmxSdk =
  sdk_reads :: reads
  orders :: "sdk_write \<Rightarrow> thrown + tx_result"
  queries :: "query \<Rightarrow> thrown + string"
  safeBigInt :: "string \<Rightarrow> thrown + int"
  formatUsdAmount :: "int \<Rightarrow> string"
  formatTokenAmount :: "int \<Rightarrow> nat \<Rightarrow> thrown + string"
  usd_toFixed :: "int \<Rightarrow> string"
  minDistance_toFixed :: "int \<Rightarrow> string"
  too_close :: "int \<Rightarrow> int \<Rightarrow> bool"

datatype source = ViaCache | ViaSdk

text \<open>
  The calls a handler makes, as they appear in its trace. A write handed to the queue
  and a write sent to the SDK directly are different events, and so are a query run
  behind the read-after-write barrier and a query called directly.

  A handler awaits what the queue returns, and \<^verbatim>\<open>transaction-queue.ts\<close> is not among
  the sources at hand. What the handler gets back is taken from the specification: by
  4.1 the promise of \<^verbatim>\<open>enqueueWriteTransaction(label, operation)\<close> "resolves with the
  operation's result or rejects with its error", and by 4.2 the operation handed to
  \<^verbatim>\<open>enqueueReadAfterWrite\<close> runs once its barrier is satisfied. So in the handlers below
  the \<^verbatim>\<open>await\<close> of a call handed to the queue settles as the operation handed over
  settles, as the \<^verbatim>\<open>await\<close> of a direct call settles as the call does. Every call is
  taken to settle.
\<close>

datatype effect =
    enqueueWriteTransaction string sdk_write
  | enqueueReadAfterWrite string query
  | SdkWrite sdk_write
  | Query query
  | Read source read_call
  | invalidatePositions
  | invalidateTokens

subsection \<open>Sequencing with a trace and exceptions\<close>

type_synonym 'a action = "effect list \<Rightarrow> effect list \<times> (thrown + 'a)"

definition return :: "'a \<Rightarrow> 'a action" where
  "return x = (\<lambda>t. (t, Inr x))"

definition throw :: "string \<Rightarrow> 'a action" where
  "throw m = (\<lambda>t. (t, Inl (JsError m)))"

text \<open>A synchronous step that may throw.\<close>

definition sync :: "(thrown + 'a) \<Rightarrow> 'a action" where
  "sync r = (\<lambda>t. (t, r))"

text \<open>\<^verbatim>\<open>await\<close> of a call on a collaborator, which settles as \<open>r\<close>.\<close>

definition await :: "effect \<Rightarrow> (thrown + 'a) \<Rightarrow> 'a action" where
  "await ev r = (\<lambda>t. (t @ [ev], r))"

definition call :: "effect \<Rightarrow> unit action" where
  "call ev = (\<lambda>t. (t @ [ev], Inr ()))"

definition bind :: "'a action \<Rightarrow> ('a \<Rightarrow> 'b action) \<Rightarrow> 'b action" where
  "bind m f = (\<lambda>t. case m t of (t', Inl e) \<Rightarrow> (t', Inl e) | (t', Inr x) \<Rightarrow> f x t')"

definition unless :: "bool \<Rightarrow> string \<Rightarrow> unit action" where
  "unless ok m = (if ok then return () else throw m)"

text \<open>\<^verbatim>\<open>const x = table[key]; if (!x) throw new Error(m)\<close>\<close>

definition lookup :: "('k \<rightharpoonup> 'v) \<Rightarrow> 'k \<Rightarrow> string \<Rightarrow> 'v action" where
  "lookup m k msg = (case m k of None \<Rightarrow> throw msg | Some v \<Rightarrow> return v)"

text \<open>
  \<^verbatim>\<open>try { body } catch (error) { return handler(error) }\<close> as the body of an async
  function: the result says how the function's promise settles, \<open>Inr\<close> for resolved
  and \<open>Inl\<close> for rejected.
\<close>

definition try_catch :: "'a action \<Rightarrow> (thrown \<Rightarrow> 'a action) \<Rightarrow> 'a action" where
  "try_catch body handler =
     (\<lambda>t. case body t of (t', Inl e) \<Rightarrow> handler e t' | (t', Inr x) \<Rightarrow> (t', Inr x))"

subsection \<open>What a handler returns\<close>

text \<open>
  \<open>payload\<close> is the string a read handler returns under \<^verbatim>\<open>formattedData\<close>,
  \<^verbatim>\<open>ordersString\<close>, \<^verbatim>\<open>synthBtcPredictions\<close>, \<^verbatim>\<open>synthEthPredictions\<close>,
  \<^verbatim>\<open>btcTechnicalAnalysis\<close> or \<^verbatim>\<open>ethTechnicalAnalysis\<close>.
\<close>

record action_result =
  success :: bool
  error :: "string option"
  message :: string
  payload :: "string option"
  transactionHash :: "string option"

definition errorResult :: "string \<Rightarrow> thrown \<Rightarrow> action_result" where
  "errorResult msg e =
     \<lparr>success = False, error = Some (error_text e), message = msg,
      payload = None, transactionHash = None\<rparr>"

definition readResult :: "string \<Rightarrow> string \<Rightarrow> action_result" where
  "readResult msg s =
     \<lparr>success = True, error = None, message = msg, payload = Some s, transactionHash = None\<rparr>"

definition writeResult :: "string \<Rightarrow> string option \<Rightarrow> action_result" where
  "writeResult msg h =
     \<lparr>success = True, error = None, message = msg, payload = None, transactionHash = h\<rparr>"

subsection \<open>Read handlers\<close>

text \<open>
  The \<^verbatim>\<open>try\<close> block of nine read handlers has the same shape:
  \<^verbatim>\<open>const s = await query(sdk, gmxDataCache); return { success: true, message, formattedData: s }\<close>.
\<close>

definition direct_read :: "GmxSdk \<Rightarrow> query \<Rightarrow> string \<Rightarrow> action_result action" where
  "direct_read sdk q done =
     bind (await (Query q) (queries sdk q)) (\<lambda>s.
     return (readResult done s))"

text \<open>
  Every handler is its \<^verbatim>\<open>try\<close> block, named \<open>_try\<close> here, under its \<^verbatim>\<open>catch\<close> block,
  which returns \<^verbatim>\<open>{ success: false, error: error instanceof Error ? error.message : String(error), message }\<close>.
  \<^verbatim>\<open>get_positions\<close> and \<^verbatim>\<open>get_orders\<close> hand the call of their query function to
  \<^verbatim>\<open>transactionQueue.enqueueReadAfterWrite\<close>.
\<close>

definition get_btc_eth_markets_try :: "GmxSdk \<Rightarrow> action_result action" where
  "get_btc_eth_markets_try sdk =
     direct_read sdk get_btc_eth_markets_str
       ''Successfully retrieved BTC/ETH markets data''"

definition get_btc_eth_markets :: "GmxSdk \<Rightarrow> action_result action" where
  "get_btc_eth_markets sdk =
     try_catch (get_btc_eth_markets_try sdk)
       (\<lambda>e. return (errorResult ''Failed to fetch BTC/ETH markets data'' e))"

definition get_daily_volumes_try :: "GmxSdk \<Rightarrow> action_result action" where
  "get_daily_volumes_try sdk =
     direct_read sdk get_daily_volumes_str
       ''Successfully retrieved BTC/ETH daily volumes''"

definition get_daily_volumes :: "GmxSdk \<Rightarrow> action_result action" where
  "get_daily_volumes sdk =
     try_catch (get_daily_volumes_try sdk)
       (\<lambda>e. return (errorResult ''Failed to fetch daily volumes'' e))"

definition get_tokens_data_try :: "GmxSdk \<Rightarrow> action_result action" where
  "get_tokens_data_try sdk =
     direct_read sdk get_tokens_data_str
       ''Successfully retrieved BTC/ETH/USD tokens data''"

definition get_tokens_data :: "GmxSdk \<Rightarrow> action_result action" where
  "get_tokens_data sdk =
     try_catch (get_tokens_data_try sdk)
       (\<lambda>e. return (errorResult ''Failed to fetch tokens data'' e))"

definition get_portfolio_balance_try :: "GmxSdk \<Rightarrow> action_result action" where
  "get_portfolio_balance_try sdk =
     direct_read sdk get_portfolio_balance_str
       ''Portfolio balance retrieved successfully''"

definition get_portfolio_balance :: "GmxSdk \<Rightarrow> action_result action" where
  "get_portfolio_balance sdk =
     try_catch (get_portfolio_balance_try sdk)
       (\<lambda>e. return (errorResult ''Failed to get portfolio balance'' e))"

definition get_positions_try :: "GmxSdk \<Rightarrow> action_result action" where
  "get_positions_try sdk =
     bind (await (enqueueReadAfterWrite ''get_positions'' get_positions_str)
             (queries sdk get_positions_str)) (\<lambda>positionsString.
     return (readResult ''Positions retrieved successfully'' positionsString))"

definition get_positions :: "GmxSdk \<Rightarrow> action_result action" where
  "get_positions sdk =
     try_catch (get_positions_try sdk)
       (\<lambda>e. return (errorResult ''Failed to get positions'' e))"

definition get_orders_try :: "GmxSdk \<Rightarrow> action_result action" where
  "get_orders_try sdk =
     bind (await (enqueueReadAfterWrite ''get_orders'' get_orders_str)
             (queries sdk get_orders_str)) (\<lambda>ordersString.
     return (readResult ordersString ordersString))"

definition get_orders :: "GmxSdk \<Rightarrow> action_result action" where
  "get_orders sdk =
     try_catch (get_orders_try sdk)
       (\<lambda>e. return (errorResult ''Failed to fetch orders'' e))"

definition get_trading_history_try :: "GmxSdk \<Rightarrow> action_result action" where
  "get_trading_history_try sdk =
     direct_read sdk get_trading_history_str
       ''Successfully retrieved trading history analysis''"

definition get_trading_history :: "GmxSdk \<Rightarrow> action_result action" where
  "get_trading_history sdk =
     try_catch (get_trading_history_try sdk)
       (\<lambda>e. return (errorResult ''Failed to fetch trading history'' e))"

definition get_synth_btc_predictions_try :: "GmxSdk \<Rightarrow> action_result action" where
  "get_synth_btc_predictions_try sdk =
     direct_read sdk (get_synth_analysis_str BTC)
       ''Retrieved consolidated BTC predictions from top Synth miners''"

definition get_synth_btc_predictions :: "GmxSdk \<Rightarrow> action_result action" where
  "get_synth_btc_predictions sdk =
     try_catch (get_synth_btc_predictions_try sdk)
       (\<lambda>e. return (errorResult ''Failed to fetch BTC predictions from Synth'' e))"

definition get_synth_eth_predictions_try :: "GmxSdk \<Rightarrow> action_result action" where
  "get_synth_eth_predictions_try sdk =
     direct_read sdk (get_synth_analysis_str ETH)
       ''Retrieved consolidated ETH predictions from top Synth miners''"

definition get_synth_eth_predictions :: "GmxSdk \<Rightarrow> action_result action" where
  "get_synth_eth_predictions sdk =
     try_catch (get_synth_eth_predictions_try sdk)
       (\<lambda>e. return (errorResult ''Failed to fetch ETH predictions from Synth'' e))"

definition get_btc_technical_analysis_try :: "GmxSdk \<Rightarrow> action_result action" where
  "get_btc_technical_analysis_try sdk =
     direct_read sdk (get_technical_analysis_str BTC)
       ''Successfully retrieved BTC technical indicators''"

definition get_btc_technical_analysis :: "GmxSdk \<Rightarrow> action_result action" where
  "get_btc_technical_analysis sdk =
     try_catch (get_btc_technical_analysis_try sdk)
       (\<lambda>e. return (errorResult ''Failed to fetch BTC technical analysis'' e))"

definition get_eth_technical_analysis_try :: "GmxSdk \<Rightarrow> action_result action" where
  "get_eth_technical_analysis_try sdk =
     direct_read sdk (get_technical_analysis_str ETH)
       ''Successfully retrieved ETH technical indicators''"

definition get_eth_technical_analysis :: "GmxSdk \<Rightarrow> action_result action" where
  "get_eth_technical_analysis sdk =
     try_catch (get_eth_technical_analysis_try sdk)
       (\<lambda>e. return (errorResult ''Failed to fetch ETH technical analysis'' e))"

subsection \<open>Steps the write handlers share\<close>

text \<open>
  \<^verbatim>\<open>gmxDataCache ? await gmxDataCache.getMarketsInfo()
               : await sdk.markets.getMarketsInfo().catch(error => { throw new Error(...) })\<close>
\<close>

definition fetch_markets :: "GmxSdk \<Rightarrow> reads option \<Rightarrow> markets_result action" where
  "fetch_markets sdk gmxDataCache =
     (case gmxDataCache of
        Some c \<Rightarrow> await (Read ViaCache getMarketsInfo) (r_getMarketsInfo c)
      | None \<Rightarrow>
          await (Read ViaSdk getMarketsInfo)
            (catch_rethrow (r_getMarketsInfo (sdk_reads sdk))
               (\<lambda>e. ''Failed to get market data: '' @ message_or_error e)))"

text \<open>\<^verbatim>\<open>if (!marketsInfoData || !tokensData) throw new Error(msg)\<close>\<close>

definition market_and_token_data ::
  "markets_result \<Rightarrow> string \<Rightarrow> ((string \<rightharpoonup> market_info) \<times> (string \<rightharpoonup> token)) action" where
  "market_and_token_data r msg =
     (case marketsInfoData r of
        None \<Rightarrow> throw msg
      | Some m \<Rightarrow> (case tokensData r of None \<Rightarrow> throw msg | Some t \<Rightarrow> return (m, t)))"

text \<open>\<^verbatim>\<open>if (data.leverage) { helperParams.leverage = convert(data.leverage) }\<close>\<close>

definition when_given :: "string option \<Rightarrow> (string \<Rightarrow> thrown + int) \<Rightarrow> unit action" where
  "when_given field convert =
     (case field of
        None \<Rightarrow> return ()
      | Some s \<Rightarrow> (if s = [] then return () else bind (sync (convert s)) (\<lambda>_. return ())))"

text \<open>\<^verbatim>\<open>if (gmxDataCache) { gmxDataCache.invalidatePositions() }\<close>\<close>

definition invalidate_positions :: "reads option \<Rightarrow> unit action" where
  "invalidate_positions gmxDataCache =
     (if gmxDataCache = None then return () else call invalidatePositions)"

text \<open>\<^verbatim>\<open>indexToken.prices?.maxPrice || 0n\<close>\<close>

definition price_or_0 :: "int option \<Rightarrow> int" where
  "price_or_0 p = (case p of None \<Rightarrow> 0 | Some x \<Rightarrow> x)"

text \<open>\<^verbatim>\<open>positions.find(pos => pos.marketAddress === data.marketAddress)\<close>\<close>

definition find_position :: "position list \<Rightarrow> string \<Rightarrow> string \<Rightarrow> position action" where
  "find_position ps addr msg =
     (case find (\<lambda>pos. pos_marketAddress pos = addr) ps of
        None \<Rightarrow> throw msg
      | Some pos \<Rightarrow> return pos)"

subsection \<open>Write handlers\<close>

record cancel_input =
  orderKeys :: "string list"

record market_input =
  marketAddress :: string
  allowedSlippageBps :: js_number

record open_input = market_input +
  payAmount :: string
  payTokenAddress :: string
  collateralTokenAddress :: string
  leverage :: "string option"

record limit_input = open_input +
  limitPrice :: string

record close_input = market_input +
  receiveTokenAddress :: string

record trigger_input = market_input +
  triggerPrice :: string
  sizeDeltaUsd :: "string option"

record swap_input =
  fromTokenAddress :: string
  toTokenAddress :: string
  fromAmount :: "string option"
  toAmount :: "string option"
  swap_allowedSlippageBps :: js_number
  swap_triggerPrice :: "string option"

definition cancel_orders_try :: "GmxSdk \<Rightarrow> reads option \<Rightarrow> cancel_input \<Rightarrow> action_result action" where
  "cancel_orders_try sdk gmxDataCache data =
     bind (await (enqueueWriteTransaction ''cancel_orders'' cancelOrders)
             (orders sdk cancelOrders)) (\<lambda>result.
     bind (invalidate_positions gmxDataCache) (\<lambda>_.
     return (writeResult
       (''Successfully cancelled '' @ show_nat (length (orderKeys data)) @ '' order(s)'')
       (or_else (tx_transactionHash result) (tx_hash result)))))"

definition cancel_orders :: "GmxSdk \<Rightarrow> reads option \<Rightarrow> cancel_input \<Rightarrow> action_result action" where
  "cancel_orders sdk gmxDataCache data =
     try_catch (cancel_orders_try sdk gmxDataCache data)
       (\<lambda>e. return (errorResult ''Failed to cancel orders'' e))"

definition open_long_market_try :: "GmxSdk \<Rightarrow> reads option \<Rightarrow> open_input \<Rightarrow> action_result action" where
  "open_long_market_try sdk gmxDataCache data =
     bind (fetch_markets sdk gmxDataCache) (\<lambda>marketsResult.
     bind (market_and_token_data marketsResult ''Invalid market data received'') (\<lambda>(markets, tokens).
     bind (lookup markets (marketAddress data)
             (''Market not found: '' @ marketAddress data)) (\<lambda>marketInfo.
     bind (lookup tokens (payTokenAddress data)
             (''Pay token not found: '' @ payTokenAddress data)) (\<lambda>payToken.
     bind (lookup tokens (collateralTokenAddress data)
             (''Collateral token not found: '' @ collateralTokenAddress data)) (\<lambda>collateralToken.
     bind (sync (BigInt (payAmount data))) (\<lambda>_.
     bind (when_given (leverage data) BigInt) (\<lambda>_.
     bind (await (enqueueWriteTransaction ''open_long_market'' long)
             (catch_rethrow (orders sdk long)
                (\<lambda>e. ''Failed to open long position: '' @ message_or_error e))) (\<lambda>result.
     bind (invalidate_positions gmxDataCache) (\<lambda>_.
     return (writeResult ''Successfully opened long market position''
               (or_else (tx_transactionHash result) None)))))))))))"

definition open_long_market :: "GmxSdk \<Rightarrow> reads option \<Rightarrow> open_input \<Rightarrow> action_result action" where
  "open_long_market sdk gmxDataCache data =
     try_catch (open_long_market_try sdk gmxDataCache data)
       (\<lambda>e. return (errorResult ''Failed to open long position'' e))"

definition open_long_limit_try :: "GmxSdk \<Rightarrow> reads option \<Rightarrow> limit_input \<Rightarrow> action_result action" where
  "open_long_limit_try sdk gmxDataCache data =
     bind (fetch_markets sdk gmxDataCache) (\<lambda>marketsResult.
     bind (market_and_token_data marketsResult ''Invalid market data received'') (\<lambda>(markets, tokens).
     bind (lookup markets (marketAddress data)
             (''Market not found: '' @ marketAddress data)) (\<lambda>marketInfo.
     bind (lookup tokens (payTokenAddress data)
             (''Pay token not found: '' @ payTokenAddress data)) (\<lambda>payToken.
     bind (lookup tokens (collateralTokenAddress data)
             (''Collateral token not found: '' @ collateralTokenAddress data)) (\<lambda>collateralToken.
     bind (lookup tokens (indexTokenAddress marketInfo)
             (''Index token not found: '' @ indexTokenAddress marketInfo)) (\<lambda>indexToken.
     bind (sync (BigInt (limitPrice data))) (\<lambda>limitPriceBigInt.
     bind (unless (\<not> limitPriceBigInt \<ge> price_or_0 (maxPrice indexToken))
             (''Invalid long limit order: limit price ('' @ formatUsdAmount sdk limitPriceBigInt
              @ '') must be lower than current market price (''
              @ formatUsdAmount sdk (price_or_0 (maxPrice indexToken)) @ '')'')) (\<lambda>_.
     bind (sync (BigInt (payAmount data))) (\<lambda>_.
     bind (sync (BigInt (limitPrice data))) (\<lambda>_.
     bind (when_given (leverage data) BigInt) (\<lambda>_.
     bind (await (enqueueWriteTransaction ''open_long_limit'' long)
             (catch_rethrow (orders sdk long)
                (\<lambda>e. ''Failed to open long limit order: '' @ message_or_error e))) (\<lambda>result.
     bind (invalidate_positions gmxDataCache) (\<lambda>_.
     return (writeResult ''Successfully placed long limit order''
               (or_else (tx_transactionHash result) None)))))))))))))))"

definition open_long_limit :: "GmxSdk \<Rightarrow> reads option \<Rightarrow> limit_input \<Rightarrow> action_result action" where
  "open_long_limit sdk gmxDataCache data =
     try_catch (open_long_limit_try sdk gmxDataCache data)
       (\<lambda>e. return (errorResult ''Failed to place long limit order'' e))"

text \<open>\<^verbatim>\<open>if (!payToken || !collateralToken) throw new Error(msg)\<close>\<close>

definition both_tokens :: "(string \<rightharpoonup> token) \<Rightarrow> string \<Rightarrow> string \<Rightarrow> string \<Rightarrow> (token \<times> token) action" where
  "both_tokens tokens a b msg =
     (case tokens a of
        None \<Rightarrow> throw msg
      | Some x \<Rightarrow> (case tokens b of None \<Rightarrow> throw msg | Some y \<Rightarrow> return (x, y)))"

definition open_short_market_try :: "GmxSdk \<Rightarrow> reads option \<Rightarrow> open_input \<Rightarrow> action_result action" where
  "open_short_market_try sdk gmxDataCache data =
     bind (fetch_markets sdk gmxDataCache) (\<lambda>marketsResult.
     bind (market_and_token_data marketsResult ''Invalid market data received'') (\<lambda>(markets, tokens).
     bind (lookup markets (marketAddress data)
             (''Market not found: '' @ marketAddress data)) (\<lambda>marketInfo.
     bind (both_tokens tokens (payTokenAddress data) (collateralTokenAddress data)
             ''Invalid token addresses provided'') (\<lambda>(payToken, collateralToken).
     bind (sync (safeBigInt sdk (payAmount data))) (\<lambda>_.
     bind (when_given (leverage data) (safeBigInt sdk)) (\<lambda>_.
     bind (await (enqueueWriteTransaction ''open_short_market'' short)
             (catch_rethrow (orders sdk short)
                (\<lambda>e. ''Failed to open short position: '' @ message_or_error e))) (\<lambda>result.
     bind (invalidate_positions gmxDataCache) (\<lambda>_.
     return (writeResult ''Successfully opened short market position''
               (or_else (tx_transactionHash result) None))))))))))"

definition open_short_market :: "GmxSdk \<Rightarrow> reads option \<Rightarrow> open_input \<Rightarrow> action_result action" where
  "open_short_market sdk gmxDataCache data =
     try_catch (open_short_market_try sdk gmxDataCache data)
       (\<lambda>e. return (errorResult ''Failed to open short market order'' e))"

definition open_short_limit_try :: "GmxSdk \<Rightarrow> reads option \<Rightarrow> limit_input \<Rightarrow> action_result action" where
  "open_short_limit_try sdk gmxDataCache data =
     bind (fetch_markets sdk gmxDataCache) (\<lambda>marketsResult.
     bind (market_and_token_data marketsResult ''Invalid market data received'') (\<lambda>(markets, tokens).
     bind (lookup markets (marketAddress data)
             (''Market not found: '' @ marketAddress data)) (\<lambda>marketInfo.
     bind (both_tokens tokens (payTokenAddress data) (collateralTokenAddress data)
             ''Invalid token addresses provided'') (\<lambda>(payToken, collateralToken).
     bind (lookup tokens (indexTokenAddress marketInfo)
             (''Index token not found: '' @ indexTokenAddress marketInfo)) (\<lambda>indexToken.
     bind (sync (BigInt (limitPrice data))) (\<lambda>limitPriceBigInt.
     bind (unless (\<not> limitPriceBigInt \<le> price_or_0 (minPrice indexToken))
             (''Invalid short limit order: limit price ('' @ formatUsdAmount sdk limitPriceBigInt
              @ '') must be higher than current market price (''
              @ formatUsdAmount sdk (price_or_0 (minPrice indexToken)) @ '')'')) (\<lambda>_.
     bind (sync (safeBigInt sdk (payAmount data))) (\<lambda>_.
     bind (sync (safeBigInt sdk (limitPrice data))) (\<lambda>_.
     bind (when_given (leverage data) (safeBigInt sdk)) (\<lambda>_.
     bind (await (enqueueWriteTransaction ''open_short_limit'' short)
             (catch_rethrow (orders sdk short)
                (\<lambda>e. ''Failed to open short limit order: '' @ message_or_error e))) (\<lambda>result.
     bind (invalidate_positions gmxDataCache) (\<lambda>_.
     return (writeResult ''Successfully placed short limit order''
               (or_else (tx_transactionHash result) None))))))))))))))"

definition open_short_limit :: "GmxSdk \<Rightarrow> reads option \<Rightarrow> limit_input \<Rightarrow> action_result action" where
  "open_short_limit sdk gmxDataCache data =
     try_catch (open_short_limit_try sdk gmxDataCache data)
       (\<lambda>e. return (errorResult ''Failed to place short limit order'' e))"

text \<open>
  The \<^verbatim>\<open>.catch\<close> on \<^verbatim>\<open>createDecreaseOrder\<close> in \<^verbatim>\<open>close_position\<close>; \<open>direction\<close> is
  \<^verbatim>\<open>direction.toLowerCase()\<close>.
\<close>

definition close_error_message :: "string \<Rightarrow> thrown \<Rightarrow> string" where
  "close_error_message direction e =
     (if message_includes e ''insufficient'' then ''Insufficient liquidity or invalid parameters''
      else if message_includes e ''slippage'' then ''Slippage tolerance exceeded''
      else if message_includes e ''fee'' then ''Insufficient funds for execution fee''
      else (case e of
              JsError m \<Rightarrow> (if m \<noteq> [] then m else ''Failed to close '' @ direction @ '' position'')
            | JsValue v \<Rightarrow> ''Failed to close '' @ direction @ '' position''))"

text \<open>
  \<^verbatim>\<open>close_position\<close> awaits \<^verbatim>\<open>sdk.orders.createDecreaseOrder\<close> itself; the call is
  not handed to the transaction queue. After the invalidation it builds its result,
  and for it calls \<^verbatim>\<open>formatTokenAmount(position.sizeInTokens, indexToken.decimals, 6)\<close> and
  \<^verbatim>\<open>formatTokenAmount(position.collateralAmount, collateralToken.decimals, 6)\<close>.
\<close>

definition close_position_try :: "GmxSdk \<Rightarrow> reads option \<Rightarrow> close_input \<Rightarrow> action_result action" where
  "close_position_try sdk gmxDataCache data =
     bind (fetch_markets sdk gmxDataCache) (\<lambda>marketsResult.
     bind (market_and_token_data marketsResult ''Failed to get market and token data'') (\<lambda>(markets, tokens).
     bind (lookup markets (marketAddress data)
             (''Market not found: '' @ marketAddress data
              @ ''. Please use get_positions to find valid market addresses.'')) (\<lambda>marketInfo.
     bind (case gmxDataCache of
             Some c \<Rightarrow> await (Read ViaCache getPositions) (r_getPositions c)
           | None \<Rightarrow> await (Read ViaSdk getPositions) (r_getPositions (sdk_reads sdk))) (\<lambda>positionsResult.
     bind (find_position (case positionsData positionsResult of None \<Rightarrow> [] | Some ps \<Rightarrow> ps)
             (marketAddress data)
             (''No position found for market '' @ name marketInfo
              @ ''. Use get_positions to see current positions.'')) (\<lambda>position.
     bind (lookup tokens (receiveTokenAddress data)
             (''Invalid receive token address: '' @ receiveTokenAddress data)) (\<lambda>receiveToken.
     bind (both_tokens tokens (indexTokenAddress marketInfo) (pos_collateralTokenAddress position)
             ''Failed to get token data for position'') (\<lambda>(indexToken, collateralToken).
     bind (sync (BigInt_of_number (or_125 (allowedSlippageBps data)))) (\<lambda>_.
     bind (await (SdkWrite createDecreaseOrder)
             (catch_rethrow (orders sdk createDecreaseOrder)
                (close_error_message (if isLong position then ''long'' else ''short'')))) (\<lambda>result.
     bind (invalidate_positions gmxDataCache) (\<lambda>_.
     bind (sync (formatTokenAmount sdk (sizeInTokens position) (decimals indexToken))) (\<lambda>_.
     bind (sync (formatTokenAmount sdk (collateralAmount position) (decimals collateralToken))) (\<lambda>_.
     return (writeResult
               (''Successfully fully closed '' @ (if isLong position then ''long'' else ''short'')
                @ '' position'')
               (or_else (tx_transactionHash result) None))))))))))))))"

definition close_position :: "GmxSdk \<Rightarrow> reads option \<Rightarrow> close_input \<Rightarrow> action_result action" where
  "close_position sdk gmxDataCache data =
     try_catch (close_position_try sdk gmxDataCache data)
       (\<lambda>e. return (errorResult ''Failed to close position'' e))"

text \<open>The \<^verbatim>\<open>.catch\<close> on \<^verbatim>\<open>sdk.orders.swap\<close>.\<close>

definition swap_error_message :: "thrown \<Rightarrow> string" where
  "swap_error_message e =
     (if message_includes e ''insufficient'' then ''Insufficient balance for swap''
      else if message_includes e ''slippage''
        then ''Slippage tolerance exceeded - try increasing allowedSlippageBps''
      else if message_includes e ''synthetic'' then ''Synthetic tokens are not supported for swaps''
      else ''Failed to execute swap: '' @ message_or_error e)"

text \<open>An optional string field when it is truthy: present and not empty.\<close>

definition given :: "string option \<Rightarrow> string option" where
  "given field = (case field of None \<Rightarrow> None | Some s \<Rightarrow> (if s = [] then None else Some s))"

text \<open>
  \<^verbatim>\<open>if (data.fromAmount) { swapParams.fromAmount = BigInt(data.fromAmount) }
  else if (data.toAmount) { swapParams.toAmount = BigInt(data.toAmount) }
  else { throw new Error(msg) }\<close>.
  After the write the handler takes the same branch again to build the amount it
  displays, with \<^verbatim>\<open>BigInt\<close> of the same string and the decimals of \<^verbatim>\<open>fromToken\<close> or of
  \<^verbatim>\<open>toToken\<close>; so the step returns the amount together with that token.
\<close>

definition swap_amount :: "swap_input \<Rightarrow> token \<Rightarrow> token \<Rightarrow> (int \<times> token) action" where
  "swap_amount data fromToken toToken =
     (case given (fromAmount data) of
        Some s \<Rightarrow> bind (sync (BigInt s)) (\<lambda>n. return (n, fromToken))
      | None \<Rightarrow>
          (case given (toAmount data) of
             Some s \<Rightarrow> bind (sync (BigInt s)) (\<lambda>n. return (n, toToken))
           | None \<Rightarrow> throw ''Either fromAmount or toAmount must be specified''))"

text \<open>
  Between the write and the invalidations \<^verbatim>\<open>swap_tokens\<close> builds its result, and for
  it calls \<^verbatim>\<open>formatTokenAmount(BigInt(data.fromAmount), fromToken.decimals, 6)\<close>, or the
  same on \<^verbatim>\<open>data.toAmount\<close> and \<^verbatim>\<open>toToken\<close>. If that call throws, the swap has been
  sent and the handler leaves through its \<^verbatim>\<open>catch\<close> block before it invalidates.
\<close>

definition swap_tokens_try :: "GmxSdk \<Rightarrow> reads option \<Rightarrow> swap_input \<Rightarrow> action_result action" where
  "swap_tokens_try sdk gmxDataCache data =
     bind (case gmxDataCache of
             Some c \<Rightarrow> await (Read ViaCache getTokensData) (r_getTokensData c)
           | None \<Rightarrow>
               await (Read ViaSdk getTokensData)
                 (catch_rethrow (r_getTokensData (sdk_reads sdk))
                    (\<lambda>e. ''Failed to get token data: '' @ message_or_error e))) (\<lambda>tokensResult.
     bind (case tr_tokensData tokensResult of
             None \<Rightarrow> throw ''Failed to get token data''
           | Some t \<Rightarrow> return t) (\<lambda>tokens.
     bind (lookup tokens (fromTokenAddress data)
             (''From token not found: '' @ fromTokenAddress data)) (\<lambda>fromToken.
     bind (lookup tokens (toTokenAddress data)
             (''To token not found: '' @ toTokenAddress data)) (\<lambda>toToken.
     bind (unless (\<not> isSynthetic fromToken)
             (''Synthetic tokens are not supported: '' @ symbol fromToken)) (\<lambda>_.
     bind (unless (\<not> isSynthetic toToken)
             (''Synthetic tokens are not supported: '' @ symbol toToken)) (\<lambda>_.
     bind (swap_amount data fromToken toToken) (\<lambda>(amount, shownToken).
     bind (when_given (swap_triggerPrice data) BigInt) (\<lambda>_.
     bind (await (enqueueWriteTransaction ''swap_tokens'' swap)
             (catch_rethrow (orders sdk swap) swap_error_message)) (\<lambda>result.
     bind (sync (formatTokenAmount sdk amount (decimals shownToken))) (\<lambda>_.
     bind (if gmxDataCache = None then return ()
           else bind (call invalidateTokens) (\<lambda>_. call invalidatePositions)) (\<lambda>_.
     return (writeResult
               (''Successfully initiated ''
                @ (if truthy (swap_triggerPrice data) then ''limit'' else ''market'') @ '' swap'')
               (or_else (tx_transactionHash result) None)))))))))))))"

definition swap_tokens :: "GmxSdk \<Rightarrow> reads option \<Rightarrow> swap_input \<Rightarrow> action_result action" where
  "swap_tokens sdk gmxDataCache data =
     try_catch (swap_tokens_try sdk gmxDataCache data)
       (\<lambda>e. return (errorResult ''Failed to execute token swap'' e))"

text \<open>
  \<^verbatim>\<open>marketInfo.name\<close> where \<^verbatim>\<open>marketInfo = marketsInfoData[data.marketAddress]\<close> was not
  checked: a TypeError when the market is missing.
\<close>

definition name_of :: "market_info option \<Rightarrow> string action" where
  "name_of marketInfo =
     (case marketInfo of
        None \<Rightarrow> throw (''Cannot read properties of undefined (reading '' @ [CHR 0x27] @ ''name''
                        @ [CHR 0x27] @ '')'')
      | Some m \<Rightarrow> return (name m))"

text \<open>
  The part of \<^verbatim>\<open>decreaseAmounts\<close> that can throw:
  \<^verbatim>\<open>(position.sizeInTokens * BigInt(data.sizeDeltaUsd)) / position.sizeInUsd\<close>, then
  \<^verbatim>\<open>BigInt(data.allowedSlippageBps || 125)\<close>.
\<close>

definition decreaseAmounts :: "position \<Rightarrow> trigger_input \<Rightarrow> unit action" where
  "decreaseAmounts position data =
     bind (if truthy (sizeDeltaUsd data) \<and> sizeInUsd position = 0
           then throw ''Division by zero'' else return ()) (\<lambda>_.
     bind (sync (BigInt_of_number (or_125 (allowedSlippageBps data)))) (\<lambda>_.
     return ()))"

text \<open>
  \<^verbatim>\<open>set_take_profit\<close> and \<^verbatim>\<open>set_stop_loss\<close> differ in the direction of the price
  check, in their texts and in the label they give the queue.
\<close>

definition set_take_profit_try :: "GmxSdk \<Rightarrow> reads option \<Rightarrow> trigger_input \<Rightarrow> action_result action" where
  "set_take_profit_try sdk gmxDataCache data =
     bind (fetch_markets sdk gmxDataCache) (\<lambda>marketsResult.
     bind (market_and_token_data marketsResult ''Failed to get market and token data'') (\<lambda>(markets, tokens).
     bind (case gmxDataCache of
             Some c \<Rightarrow> await (Read ViaCache getPositionsInfo) (r_getPositionsInfo c)
           | None \<Rightarrow> await (Read ViaSdk getPositionsInfo) (r_getPositionsInfo (sdk_reads sdk))) (\<lambda>positionsInfoResult.
     bind (find_position positionsInfoResult (marketAddress data)
             (''No position found for market address '' @ marketAddress data
              @ ''. Use get_positions to see current positions.'')) (\<lambda>position.
     bind (sync (BigInt (triggerPrice data))) (\<lambda>triggerPriceBigInt.
     bind (unless (\<not> (isLong position \<and> triggerPriceBigInt \<le> markPrice position))
             (''Invalid take profit for LONG: price ($'' @ usd_toFixed sdk triggerPriceBigInt
              @ '') must be higher than current price ($'' @ usd_toFixed sdk (markPrice position)
              @ '')'')) (\<lambda>_.
     bind (unless (\<not> (\<not> isLong position \<and> triggerPriceBigInt \<ge> markPrice position))
             (''Invalid take profit for SHORT: price ($'' @ usd_toFixed sdk triggerPriceBigInt
              @ '') must be lower than current price ($'' @ usd_toFixed sdk (markPrice position)
              @ '')'')) (\<lambda>_.
     bind (unless (\<not> too_close sdk triggerPriceBigInt (markPrice position))
             (''Take profit price too close to current price. Minimum distance: 0.1% (at least $''
              @ minDistance_toFixed sdk (markPrice position) @ '' from current $''
              @ usd_toFixed sdk (markPrice position) @ '')'')) (\<lambda>_.
     bind (name_of (markets (marketAddress data))) (\<lambda>marketName.
     bind (when_given (sizeDeltaUsd data) BigInt) (\<lambda>_.
     bind (lookup tokens (pos_collateralTokenAddress position)
             ''Failed to get collateral token data'') (\<lambda>collateralToken.
     bind (decreaseAmounts position data) (\<lambda>_.
     bind (await (enqueueWriteTransaction ''set_take_profit'' createDecreaseOrder)
             (catch_rethrow (orders sdk createDecreaseOrder)
                (\<lambda>e. ''Failed to create take profit order: '' @ message_or_error e))) (\<lambda>result.
     bind (invalidate_positions gmxDataCache) (\<lambda>_.
     return (writeResult
               (''Successfully set take profit order for ''
                @ (if isLong position then ''LONG'' else ''SHORT'') @ '' position'')
               (or_else (tx_transactionHash result) None))))))))))))))))"

definition set_take_profit :: "GmxSdk \<Rightarrow> reads option \<Rightarrow> trigger_input \<Rightarrow> action_result action" where
  "set_take_profit sdk gmxDataCache data =
     try_catch (set_take_profit_try sdk gmxDataCache data)
       (\<lambda>e. return (errorResult ''Failed to set take profit order'' e))"

definition set_stop_loss_try :: "GmxSdk \<Rightarrow> reads option \<Rightarrow> trigger_input \<Rightarrow> action_result action" where
  "set_stop_loss_try sdk gmxDataCache data =
     bind (fetch_markets sdk gmxDataCache) (\<lambda>marketsResult.
     bind (market_and_token_data marketsResult ''Failed to get market and token data'') (\<lambda>(markets, tokens).
     bind (case gmxDataCache of
             Some c \<Rightarrow> await (Read ViaCache getPositionsInfo) (r_getPositionsInfo c)
           | None \<Rightarrow> await (Read ViaSdk getPositionsInfo) (r_getPositionsInfo (sdk_reads sdk))) (\<lambda>positionsInfoResult.
     bind (find_position positionsInfoResult (marketAddress data)
             (''No position found for market address '' @ marketAddress data
              @ ''. Use get_positions to see current positions.'')) (\<lambda>position.
     bind (sync (BigInt (triggerPrice data))) (\<lambda>triggerPriceBigInt.
     bind (unless (\<not> (isLong position \<and> triggerPriceBigInt \<ge> markPrice position))
             (''Invalid stop loss for LONG: price ($'' @ usd_toFixed sdk triggerPriceBigInt
              @ '') must be lower than current price ($'' @ usd_toFixed sdk (markPrice position)
              @ '')'')) (\<lambda>_.
     bind (unless (\<not> (\<not> isLong position \<and> triggerPriceBigInt \<le> markPrice position))
             (''Invalid stop loss for SHORT: price ($'' @ usd_toFixed sdk triggerPriceBigInt
              @ '') must be higher than current price ($'' @ usd_toFixed sdk (markPrice position)
              @ '')'')) (\<lambda>_.
     bind (unless (\<not> too_close sdk triggerPriceBigInt (markPrice position))
             (''Stop loss price too close to current price. Minimum distance: 0.1% (at least $''
              @ minDistance_toFixed sdk (markPrice position) @ '' from current $''
              @ usd_toFixed sdk (markPrice position) @ '')'')) (\<lambda>_.
     bind (name_of (markets (marketAddress data))) (\<lambda>marketName.
     bind (when_given (sizeDeltaUsd data) BigInt) (\<lambda>_.
     bind (lookup tokens (pos_collateralTokenAddress position)
             ''Failed to get collateral token data'') (\<lambda>collateralToken.
     bind (decreaseAmounts position data) (\<lambda>_.
     bind (await (enqueueWriteTransaction ''set_stop_loss'' createDecreaseOrder)
             (catch_rethrow (orders sdk createDecreaseOrder)
                (\<lambda>e. ''Failed to create stop loss order: '' @ message_or_error e))) (\<lambda>result.
     bind (invalidate_positions gmxDataCache) (\<lambda>_.
     return (writeResult
               (''Successfully set stop loss order for ''
                @ (if isLong position then ''LONG'' else ''SHORT'') @ '' position'')
               (or_else (tx_transactionHash result) None))))))))))))))))"

definition set_stop_loss :: "GmxSdk \<Rightarrow> reads option \<Rightarrow> trigger_input \<Rightarrow> action_result action" where
  "set_stop_loss sdk gmxDataCache data =
     try_catch (set_stop_loss_try sdk gmxDataCache data)
       (\<lambda>e. return (errorResult ''Failed to set stop loss order'' e))"

subsection \<open>The twenty actions\<close>

datatype read_action =
    Get_btc_eth_markets
  | Get_daily_volumes
  | Get_tokens_data
  | Get_portfolio_balance
  | Get_positions
  | Get_orders
  | Get_trading_history
  | Get_synth_btc_predictions
  | Get_synth_eth_predictions
  | Get_btc_technical_analysis
  | Get_eth_technical_analysis

text \<open>A write action comes with the data of its schema.\<close>

datatype write_action =
    Cancel_orders cancel_input
  | Open_long_market open_input
  | Open_long_limit limit_input
  | Open_short_market open_input
  | Open_short_limit limit_input
  | Close_position close_input
  | Swap_tokens swap_input
  | Set_take_profit trigger_input
  | Set_stop_loss trigger_input

datatype action_call = Read_action read_action | Write_action write_action

definition read_handler :: "GmxSdk \<Rightarrow> read_action \<Rightarrow> action_result action" where
  "read_handler sdk a =
     (case a of
        Get_btc_eth_markets \<Rightarrow> get_btc_eth_markets sdk
      | Get_daily_volumes \<Rightarrow> get_daily_volumes sdk
      | Get_tokens_data \<Rightarrow> get_tokens_data sdk
      | Get_portfolio_balance \<Rightarrow> get_portfolio_balance sdk
      | Get_positions \<Rightarrow> get_positions sdk
      | Get_orders \<Rightarrow> get_orders sdk
      | Get_trading_history \<Rightarrow> get_trading_history sdk
      | Get_synth_btc_predictions \<Rightarrow> get_synth_btc_predictions sdk
      | Get_synth_eth_predictions \<Rightarrow> get_synth_eth_predictions sdk
      | Get_btc_technical_analysis \<Rightarrow> get_btc_technical_analysis sdk
      | Get_eth_technical_analysis \<Rightarrow> get_eth_technical_analysis sdk)"

definition write_handler :: "GmxSdk \<Rightarrow> reads option \<Rightarrow> write_action \<Rightarrow> action_result action" where
  "write_handler sdk gmxDataCache w =
     (case w of
        Cancel_orders data \<Rightarrow> cancel_orders sdk gmxDataCache data
      | Open_long_market data \<Rightarrow> open_long_market sdk gmxDataCache data
      | Open_long_limit data \<Rightarrow> open_long_limit sdk gmxDataCache data
      | Open_short_market data \<Rightarrow> open_short_market sdk gmxDataCache data
      | Open_short_limit data \<Rightarrow> open_short_limit sdk gmxDataCache data
      | Close_position data \<Rightarrow> close_position sdk gmxDataCache data
      | Swap_tokens data \<Rightarrow> swap_tokens sdk gmxDataCache data
      | Set_take_profit data \<Rightarrow> set_take_profit sdk gmxDataCache data
      | Set_stop_loss data \<Rightarrow> set_stop_loss sdk gmxDataCache data)"

text \<open>
  One invocation of an action of \<^verbatim>\<open>createGmxActions(sdk, gmxDataCache)\<close>: the calls it
  made, and how the promise of its handler settled.
\<close>

definition createGmxActions ::
  "GmxSdk \<Rightarrow> reads option \<Rightarrow> action_call \<Rightarrow> effect list \<times> (thrown + action_result)" where
  "createGmxActions sdk gmxDataCache c =
     (case c of
        Read_action a \<Rightarrow> read_handler sdk a []
      | Write_action w \<Rightarrow> write_handler sdk gmxDataCache w [])"

text \<open>The \<^verbatim>\<open>message\<close> of the result each handler returns from its \<^verbatim>\<open>catch\<close> block.\<close>

definition failure_message :: "action_call \<Rightarrow> string" where
  "failure_message c =
     (case c of
        Read_action a \<Rightarrow>
          (case a of
             Get_btc_eth_markets \<Rightarrow> ''Failed to fetch BTC/ETH markets data''
           | Get_daily_volumes \<Rightarrow> ''Failed to fetch daily volumes''
           | Get_tokens_data \<Rightarrow> ''Failed to fetch tokens data''
           | Get_portfolio_balance \<Rightarrow> ''Failed to get portfolio balance''
           | Get_positions \<Rightarrow> ''Failed to get positions''
           | Get_orders \<Rightarrow> ''Failed to fetch orders''
           | Get_trading_history \<Rightarrow> ''Failed to fetch trading history''
           | Get_synth_btc_predictions \<Rightarrow> ''Failed to fetch BTC predictions from Synth''
           | Get_synth_eth_predictions \<Rightarrow> ''Failed to fetch ETH predictions from Synth''
           | Get_btc_technical_analysis \<Rightarrow> ''Failed to fetch BTC technical analysis''
           | Get_eth_technical_analysis \<Rightarrow> ''Failed to fetch ETH technical analysis'')
      | Write_action w \<Rightarrow>
          (case w of
             Cancel_orders data \<Rightarrow> ''Failed to cancel orders''
           | Open_long_market data \<Rightarrow> ''Failed to open long position''
           | Open_long_limit data \<Rightarrow> ''Failed to place long limit order''
           | Open_short_market data \<Rightarrow> ''Failed to open short market order''
           | Open_short_limit data \<Rightarrow> ''Failed to place short limit order''
           | Close_position data \<Rightarrow> ''Failed to close position''
           | Swap_tokens data \<Rightarrow> ''Failed to execute token swap''
           | Set_take_profit data \<Rightarrow> ''Failed to set take profit order''
           | Set_stop_loss data \<Rightarrow> ''Failed to set stop loss order''))"

text \<open>The \<^verbatim>\<open>try\<close> block of each handler.\<close>

definition try_block :: "GmxSdk \<Rightarrow> reads option \<Rightarrow> action_call \<Rightarrow> action_result action" where
  "try_block sdk gmxDataCache c =
     (case c of
        Read_action a \<Rightarrow>
          (case a of
             Get_btc_eth_markets \<Rightarrow> get_btc_eth_markets_try sdk
           | Get_daily_volumes \<Rightarrow> get_daily_volumes_try sdk
           | Get_tokens_data \<Rightarrow> get_tokens_data_try sdk
           | Get_portfolio_balance \<Rightarrow> get_portfolio_balance_try sdk
           | Get_positions \<Rightarrow> get_positions_try sdk
           | Get_orders \<Rightarrow> get_orders_try sdk
           | Get_trading_history \<Rightarrow> get_trading_history_try sdk
           | Get_synth_btc_predictions \<Rightarrow> get_synth_btc_predictions_try sdk
           | Get_synth_eth_predictions \<Rightarrow> get_synth_eth_predictions_try sdk
           | Get_btc_technical_analysis \<Rightarrow> get_btc_technical_analysis_try sdk
           | Get_eth_technical_analysis \<Rightarrow> get_eth_technical_analysis_try sdk)
      | Write_action w \<Rightarrow>
          (case w of
             Cancel_orders data \<Rightarrow> cancel_orders_try sdk gmxDataCache data
           | Open_long_market data \<Rightarrow> open_long_market_try sdk gmxDataCache data
           | Open_long_limit data \<Rightarrow> open_long_limit_try sdk gmxDataCache data
           | Open_short_market data \<Rightarrow> open_short_market_try sdk gmxDataCache data
           | Open_short_limit data \<Rightarrow> open_short_limit_try sdk gmxDataCache data
           | Close_position data \<Rightarrow> close_position_try sdk gmxDataCache data
           | Swap_tokens data \<Rightarrow> swap_tokens_try sdk gmxDataCache data
           | Set_take_profit data \<Rightarrow> set_take_profit_try sdk gmxDataCache data
           | Set_stop_loss data \<Rightarrow> set_stop_loss_try sdk gmxDataCache data))"

subsection \<open>Reading a trace\<close>

text \<open>The SDK write behind an event, whether it went through the queue or not.\<close>

definition write_of :: "effect \<Rightarrow> sdk_write option" where
  "write_of ev =
     (case ev of
        enqueueWriteTransaction l m \<Rightarrow> Some m
      | SdkWrite m \<Rightarrow> Some m
      | _ \<Rightarrow> None)"


definition is_direct_write :: "effect \<Rightarrow> bool" where
  "is_direct_write ev = (case ev of SdkWrite m \<Rightarrow> True | _ \<Rightarrow> False)"

definition is_barrier_read :: "effect \<Rightarrow> bool" where
  "is_barrier_read ev = (case ev of enqueueReadAfterWrite l q \<Rightarrow> True | _ \<Rightarrow> False)"



text \<open>The handler's write was sent and its promise resolved.\<close>

definition write_resolved :: "GmxSdk \<Rightarrow> effect list \<Rightarrow> bool" where
  "write_resolved sdk t =
     list_ex (\<lambda>ev. case write_of ev of None \<Rightarrow> False | Some m \<Rightarrow> \<not> isl (orders sdk m)) t"

definition invalidations :: "effect list \<Rightarrow> effect list" where
  "invalidations t = filter (\<lambda>ev. ev = invalidatePositions \<or> ev = invalidateTokens) t"

text \<open>The invalidating calls each write handler makes on the data cache.\<close>

definition invalidated_by :: "write_action \<Rightarrow> effect list" where
  "invalidated_by w =
     (case w of
        Swap_tokens data \<Rightarrow> [invalidateTokens, invalidatePositions]
      | _ \<Rightarrow> [invalidatePositions])"

text \<open>The names two read handlers give the queue, and the query function each read handler calls.\<close>

definition read_name :: "read_action \<Rightarrow> string" where
  "read_name a = (case a of Get_positions \<Rightarrow> ''get_positions'' | Get_orders \<Rightarrow> ''get_orders'' | _ \<Rightarrow> [])"

definition query_of :: "read_action \<Rightarrow> query" where
  "query_of a =
     (case a of
        Get_btc_eth_markets \<Rightarrow> get_btc_eth_markets_str
      | Get_daily_volumes \<Rightarrow> get_daily_volumes_str
      | Get_tokens_data \<Rightarrow> get_tokens_data_str
      | Get_portfolio_balance \<Rightarrow> get_portfolio_balance_str
      | Get_positions \<Rightarrow> get_positions_str
      | Get_orders \<Rightarrow> get_orders_str
      | Get_trading_history \<Rightarrow> get_trading_history_str
      | Get_synth_btc_predictions \<Rightarrow> get_synth_analysis_str BTC
      | Get_synth_eth_predictions \<Rightarrow> get_synth_analysis_str ETH
      | Get_btc_technical_analysis \<Rightarrow> get_technical_analysis_str BTC
      | Get_eth_technical_analysis \<Rightarrow> get_technical_analysis_str ETH)"

text \<open>
  The event by which each write handler sends its transaction: eight hand it to the
  queue under their own name, \<^verbatim>\<open>close_position\<close> calls the SDK.
\<close>

definition write_event :: "write_action \<Rightarrow> effect" where
  "write_event w =
     (case w of
        Cancel_orders data \<Rightarrow> enqueueWriteTransaction ''cancel_orders'' cancelOrders
      | Open_long_market data \<Rightarrow> enqueueWriteTransaction ''open_long_market'' long
      | Open_long_limit data \<Rightarrow> enqueueWriteTransaction ''open_long_limit'' long
      | Open_short_market data \<Rightarrow> enqueueWriteTransaction ''open_short_market'' short
      | Open_short_limit data \<Rightarrow> enqueueWriteTransaction ''open_short_limit'' short
      | Close_position data \<Rightarrow> SdkWrite createDecreaseOrder
      | Swap_tokens data \<Rightarrow> enqueueWriteTransaction ''swap_tokens'' swap
      | Set_take_profit data \<Rightarrow> enqueueWriteTransaction ''set_take_profit'' createDecreaseOrder
      | Set_stop_loss data \<Rightarrow> enqueueWriteTransaction ''set_stop_loss'' createDecreaseOrder)"



text \<open>The invalidating calls a handler makes after a write that resolved, given the cache it has.\<close>

definition cache_ivs :: "reads option \<Rightarrow> write_action \<Rightarrow> effect list" where
  "cache_ivs c w = (if c = None then [] else invalidated_by w)"

subsection \<open>Calls that reject\<close>

text \<open>The error a settled call rejected with, if it did.\<close>

definition rejection :: "(thrown + 'a) \<Rightarrow> thrown option" where
  "rejection r = (case r of Inl e \<Rightarrow> Some e | Inr x \<Rightarrow> None)"

definition read_rejection :: "reads \<Rightarrow> read_call \<Rightarrow> thrown option" where
  "read_rejection r c =
     (case c of
        getMarketsInfo \<Rightarrow> rejection (r_getMarketsInfo r)
      | getTokensData \<Rightarrow> rejection (r_getTokensData r)
      | getPositions \<Rightarrow> rejection (r_getPositions r)
      | getPositionsInfo \<Rightarrow> rejection (r_getPositionsInfo r))"

text \<open>The error with which the collaborator's call behind an event rejects, if it does.\<close>

definition call_rejection :: "GmxSdk \<Rightarrow> reads option \<Rightarrow> effect \<Rightarrow> thrown option" where
  "call_rejection sdk gmxDataCache ev =
     (case ev of
        enqueueWriteTransaction l m \<Rightarrow> rejection (orders sdk m)
      | enqueueReadAfterWrite l q \<Rightarrow> rejection (queries sdk q)
      | SdkWrite m \<Rightarrow> rejection (orders sdk m)
      | Query q \<Rightarrow> rejection (queries sdk q)
      | Read ViaSdk c \<Rightarrow> read_rejection (sdk_reads sdk) c
      | Read ViaCache c \<Rightarrow>
          (case gmxDataCache of None \<Rightarrow> None | Some r \<Rightarrow> read_rejection r c)
      | invalidatePositions \<Rightarrow> None
      | invalidateTokens \<Rightarrow> None)"

text \<open>
  What the \<^verbatim>\<open>.catch\<close> on the SDK write of each write handler throws for the error the
  write rejected with; \<^verbatim>\<open>cancel_orders\<close> has no \<^verbatim>\<open>.catch\<close>. The text
  \<^verbatim>\<open>close_position\<close> throws names the direction of the position it found.
\<close>

definition write_rethrown :: "write_action \<Rightarrow> thrown \<Rightarrow> thrown list" where
  "write_rethrown w e =
     (case w of
        Cancel_orders data \<Rightarrow> [e]
      | Open_long_market data \<Rightarrow>
          [JsError (''Failed to open long position: '' @ message_or_error e)]
      | Open_long_limit data \<Rightarrow>
          [JsError (''Failed to open long limit order: '' @ message_or_error e)]
      | Open_short_market data \<Rightarrow>
          [JsError (''Failed to open short position: '' @ message_or_error e)]
      | Open_short_limit data \<Rightarrow>
          [JsError (''Failed to open short limit order: '' @ message_or_error e)]
      | Close_position data \<Rightarrow>
          [JsError (close_error_message ''long'' e), JsError (close_error_message ''short'' e)]
      | Swap_tokens data \<Rightarrow> [JsError (swap_error_message e)]
      | Set_take_profit data \<Rightarrow>
          [JsError (''Failed to create take profit order: '' @ message_or_error e)]
      | Set_stop_loss data \<Rightarrow>
          [JsError (''Failed to create stop loss order: '' @ message_or_error e)])"

text \<open>
  What reaches the \<^verbatim>\<open>catch\<close> block of a handler when the call behind an event has
  rejected with \<open>e\<close>: the error itself, or what the \<^verbatim>\<open>.catch\<close> on the call throws
  instead. The reads on the SDK of the markets and of the tokens have such a
  \<^verbatim>\<open>.catch\<close>; the reads on the data cache and of the positions have none.
\<close>

definition rethrown :: "action_call \<Rightarrow> effect \<Rightarrow> thrown \<Rightarrow> thrown list" where
  "rethrown c ev e =
     (case ev of
        Read ViaSdk getMarketsInfo \<Rightarrow>
          [JsError (''Failed to get market data: '' @ message_or_error e)]
      | Read ViaSdk getTokensData \<Rightarrow>
          [JsError (''Failed to get token data: '' @ message_or_error e)]
      | enqueueWriteTransaction l m \<Rightarrow>
          (case c of Write_action w \<Rightarrow> write_rethrown w e | Read_action a \<Rightarrow> [e])
      | SdkWrite m \<Rightarrow>
          (case c of Write_action w \<Rightarrow> write_rethrown w e | Read_action a \<Rightarrow> [e])
      | _ \<Rightarrow> [e])"

text \<open>
  A run in which a call that rejects is the last call made, and what the \<^verbatim>\<open>.catch\<close> on
  it throws is what the run ends with.
\<close>

definition ends_faithfully ::
  "GmxSdk \<Rightarrow> reads option \<Rightarrow> action_call \<Rightarrow> effect list \<Rightarrow> (thrown + 'a) \<Rightarrow> bool" where
  "ends_faithfully sdk gmxDataCache c d r =
     (\<forall>ev e. ev \<in> set d \<and> call_rejection sdk gmxDataCache ev = Some e \<longrightarrow>
        (\<exists>p. d = p @ [ev]) \<and> (\<exists>e' \<in> set (rethrown c ev e). r = Inl e'))"

definition faithful :: "GmxSdk \<Rightarrow> reads option \<Rightarrow> action_call \<Rightarrow> 'a action \<Rightarrow> bool" where
  "faithful sdk gmxDataCache c m =
     (\<forall>t. \<exists>d r. m t = (t @ d, r) \<and> ends_faithfully sdk gmxDataCache c d r)"

subsection \<open>Shapes of a handler's run\<close>

text \<open>Events that are neither a write nor an invalidation.\<close>

definition quiet :: "effect list \<Rightarrow> bool" where
  "quiet d = list_all (\<lambda>ev. write_of ev = None \<and> ev \<noteq> invalidatePositions \<and> ev \<noteq> invalidateTokens) d"

definition silent :: "'a action \<Rightarrow> bool" where
  "silent m = (\<forall>t. \<exists>d r. m t = (t @ d, r) \<and> quiet d)"

text \<open>The write behind the event \<open>W\<close> was rejected by the SDK.\<close>

definition rejected :: "GmxSdk \<Rightarrow> effect \<Rightarrow> bool" where
  "rejected sdk W = (case write_of W of None \<Rightarrow> True | Some m \<Rightarrow> isl (orders sdk m))"

text \<open>\<^verbatim>\<open>formatTokenAmount\<close> throws \<open>e\<close> on some arguments.\<close>

definition format_throws :: "GmxSdk \<Rightarrow> thrown \<Rightarrow> bool" where
  "format_throws sdk e = (\<exists>n d. formatTokenAmount sdk n d = Inl e)"

text \<open>
  The ways the \<^verbatim>\<open>try\<close> block of a write handler ends: it throws before the write; the
  write is its last event and rejects; the write resolves and the block throws before
  the invalidations, with an error that \<open>between\<close> allows; the write resolves, the
  invalidations \<open>ivs\<close> follow it, and the block throws, with an error that \<open>after\<close>
  allows; or the write resolves, the invalidations follow it, and the block returns a
  success result.
\<close>

definition outcome_ok ::
  "GmxSdk \<Rightarrow> effect \<Rightarrow> effect list \<Rightarrow> (thrown \<Rightarrow> bool) \<Rightarrow> (thrown \<Rightarrow> bool)
     \<Rightarrow> effect list \<Rightarrow> (thrown + action_result) \<Rightarrow> bool" where
  "outcome_ok sdk W ivs between after d r =
     ((quiet d \<and> isl r)
      \<or> (\<exists>p. d = p @ [W] \<and> quiet p \<and> rejected sdk W \<and> isl r)
      \<or> (\<exists>p e. d = p @ [W] \<and> quiet p \<and> \<not> rejected sdk W \<and> r = Inl e \<and> between e)
      \<or> (\<exists>p e. d = p @ W # ivs \<and> quiet p \<and> \<not> rejected sdk W \<and> r = Inl e \<and> after e)
      \<or> (\<exists>p x. d = p @ W # ivs \<and> quiet p \<and> \<not> rejected sdk W \<and> r = Inr x \<and> success x))"

definition disciplined ::
  "GmxSdk \<Rightarrow> effect \<Rightarrow> effect list \<Rightarrow> (thrown \<Rightarrow> bool) \<Rightarrow> (thrown \<Rightarrow> bool)
     \<Rightarrow> action_result action \<Rightarrow> bool" where
  "disciplined sdk W ivs between after m =
     (\<forall>t. \<exists>d r. m t = (t @ d, r) \<and> outcome_ok sdk W ivs between after d r)"

text \<open>The same ways after the handler's \<^verbatim>\<open>catch\<close> block.\<close>

definition handled ::
  "GmxSdk \<Rightarrow> effect \<Rightarrow> effect list \<Rightarrow> (thrown \<Rightarrow> bool) \<Rightarrow> (thrown \<Rightarrow> bool) \<Rightarrow> string
     \<Rightarrow> effect list \<times> (thrown + action_result) \<Rightarrow> bool" where
  "handled sdk W ivs between after msg out =
     (case out of (d, r) \<Rightarrow>
        (quiet d \<and> (\<exists>e. r = Inr (errorResult msg e)))
      \<or> (\<exists>p e. d = p @ [W] \<and> quiet p \<and> rejected sdk W \<and> r = Inr (errorResult msg e))
      \<or> (\<exists>p e. d = p @ [W] \<and> quiet p \<and> \<not> rejected sdk W \<and> between e
               \<and> r = Inr (errorResult msg e))
      \<or> (\<exists>p e. d = p @ W # ivs \<and> quiet p \<and> \<not> rejected sdk W \<and> after e
               \<and> r = Inr (errorResult msg e))
      \<or> (\<exists>p x. d = p @ W # ivs \<and> quiet p \<and> \<not> rejected sdk W \<and> r = Inr x \<and> success x))"

text \<open>
  The errors with which a write handler can leave after its write has resolved:
  \<^verbatim>\<open>swap_tokens\<close> before its invalidations and \<^verbatim>\<open>close_position\<close> after its
  invalidation, both with what \<^verbatim>\<open>formatTokenAmount\<close> throws; the other handlers with none.
\<close>

definition stops_between :: "GmxSdk \<Rightarrow> write_action \<Rightarrow> thrown \<Rightarrow> bool" where
  "stops_between sdk w = (case w of Swap_tokens data \<Rightarrow> format_throws sdk | _ \<Rightarrow> (\<lambda>e. False))"

definition stops_after :: "GmxSdk \<Rightarrow> write_action \<Rightarrow> thrown \<Rightarrow> bool" where
  "stops_after sdk w = (case w of Close_position data \<Rightarrow> format_throws sdk | _ \<Rightarrow> (\<lambda>e. False))"

subsection \<open>Sample collaborators and inputs\<close>

definition weth :: token where
  "weth = \<lparr>symbol = ''WETH'', decimals = 18, isSynthetic = False, maxPrice = Some 2000, minPrice = Some 1990\<rparr>"
definition usdc :: token where
  "usdc = \<lparr>symbol = ''USDC'', decimals = 6, isSynthetic = False, maxPrice = Some 1, minPrice = Some 1\<rparr>"
definition eth_market :: market_info where
  "eth_market = \<lparr>name = ''ETH/USD'', indexTokenAddress = ''0xWETH''\<rparr>"
definition eth_long :: position where
  "eth_long = \<lparr>pos_marketAddress = ''0xMARKET'', isLong = True, sizeInUsd = 5000, sizeInTokens = 3,
     collateralAmount = 1000, pos_collateralTokenAddress = ''0xUSDC'', markPrice = 2000\<rparr>"
definition sample_tokens :: "string \<rightharpoonup> token" where
  "sample_tokens = [''0xWETH'' \<mapsto> weth, ''0xUSDC'' \<mapsto> usdc]"
definition sample_reads :: reads where
  "sample_reads = \<lparr>r_getMarketsInfo = Inr \<lparr>marketsInfoData = Some [''0xMARKET'' \<mapsto> eth_market], tokensData = Some sample_tokens\<rparr>,
     r_getTokensData = Inr \<lparr>tr_tokensData = Some sample_tokens\<rparr>,
     r_getPositions = Inr \<lparr>positionsData = Some [eth_long]\<rparr>,
     r_getPositionsInfo = Inr [eth_long]\<rparr>"
definition sample_sdk :: GmxSdk where
  "sample_sdk = \<lparr>sdk_reads = sample_reads,
     orders = (\<lambda>m. Inr \<lparr>tx_transactionHash = Some ''0xabc'', tx_hash = None\<rparr>),
     queries = (\<lambda>q. Inr ''data''),
     safeBigInt = BigInt,
     formatUsdAmount = (\<lambda>x. ''$''),
     formatTokenAmount = (\<lambda>x d. Inr ''0.000000''),
     usd_toFixed = (\<lambda>x. ''0.00''),
     minDistance_toFixed = (\<lambda>x. ''0.00''),
     too_close = (\<lambda>t m. False)\<rparr>"

definition rejecting_sdk :: GmxSdk where
  "rejecting_sdk = sample_sdk\<lparr>orders := (\<lambda>m. Inl (JsError ''nonce too low''))\<rparr>"

definition unformatting_sdk :: GmxSdk where
  "unformatting_sdk =
     sample_sdk\<lparr>formatTokenAmount := (\<lambda>x d. Inl (JsError ''Invalid decimals''))\<rparr>"

definition sample_close :: close_input where
  "sample_close =
     \<lparr>marketAddress = ''0xMARKET'', allowedSlippageBps = Integral 125,
      receiveTokenAddress = ''0xUSDC''\<rparr>"

definition sample_stop_loss :: trigger_input where
  "sample_stop_loss =
     \<lparr>marketAddress = ''0xMARKET'', allowedSlippageBps = Integral 125,
      triggerPrice = ''1900'', sizeDeltaUsd = None\<rparr>"

definition sample_swap :: swap_input where
  "sample_swap =
     \<lparr>fromTokenAddress = ''0xUSDC'', toTokenAddress = ''0xWETH'', fromAmount = Some ''1000000'',
      toAmount = None, swap_allowedSlippageBps = Integral 125, swap_triggerPrice = None\<rparr>"

definition sample_cancel :: cancel_input where
  "sample_cancel = \<lparr>orderKeys = [''0x01'', ''0x02'']\<rparr>"

section \<open>The write transaction queue and the read-after-write barrier\<close>

text \<open>
  \<^verbatim>\<open>transaction-queue.ts\<close> is imported by gmx-actions.ts and is not among the sources at
  hand, so the queue is modelled from the specification (4.1, 4.2 and the data model).
  The queue is a state machine. Its inputs are the two entry points, the worker taking
  the head of the FIFO, and the settlement of the task in flight; time is the order
  of the inputs. An operation is an opaque closure: what it settles with comes with the
  input that settles it.
\<close>

text \<open>
  Modelled from the spec: what an operation of the missing \<^verbatim>\<open>transaction-queue.ts\<close>
  settles with, the error it rejects with (\<open>Inl\<close>) or its result (\<open>Inr\<close>).
\<close>

type_synonym outcome = "string + string"

text \<open>
  Modelled from the spec: QueuedOperation of the missing \<^verbatim>\<open>transaction-queue.ts\<close>, "identity/label
  (for diagnostics), the deferred asynchronous task, enqueue sequence number, the
  promise/future returned to the caller". The task and the promise are identified by
  the sequence number.
\<close>

record queued_operation =
  label :: string
  seq :: nat

text \<open>
  Modelled from the spec: what can be observed of the missing queue: a write is
  enqueued, its task starts, its task settles; a read is handed to the barrier, its
  operation starts.
\<close>

datatype queue_event =
    WriteEnqueued nat
  | WriteStarted nat
  | WriteSettled nat
  | ReadEnqueued nat
  | ReadStarted nat

text \<open>
  Modelled from the spec: the state of the missing queue singleton. The FIFO of pending
  operations; the operation whose task is in flight; the next sequence number; what
  the promise of each settled write was settled with; the reads waiting at the
  barrier, each with its barrier token; the next read's number; the events so far.
\<close>

record transaction_queue =
  fifo :: "queued_operation list"
  in_flight :: "queued_operation option"
  next_seq :: nat
  settlements :: "(nat \<times> outcome) list"
  waiting_reads :: "(nat \<times> nat) list"
  next_read :: nat
  history :: "queue_event list"

text \<open>Modelled from the spec: the missing queue as "constructed once at startup".\<close>

definition empty_queue :: transaction_queue where
  "empty_queue =
     \<lparr>fifo = [], in_flight = None, next_seq = 0, settlements = [], waiting_reads = [],
      next_read = 0, history = []\<rparr>"

text \<open>Modelled from the spec: a write of the missing queue "has settled (succeeded or failed)".\<close>

definition settled :: "transaction_queue \<Rightarrow> nat \<Rightarrow> bool" where
  "settled q n = (n \<in> set (map fst (settlements q)))"

text \<open>
  Modelled from the spec: "the queue has drained through that token, i.e., after every
  write enqueued strictly before this call has settled" (4.2 of the missing
  \<^verbatim>\<open>transaction-queue.ts\<close>).
\<close>

definition drained_through :: "transaction_queue \<Rightarrow> nat \<Rightarrow> bool" where
  "drained_through q token = list_all (settled q) [0..<Suc token]"

text \<open>
  Modelled from the spec: \<^verbatim>\<open>enqueueWrite(label, operation)\<close> of the missing queue,
  "Appends a QueuedOperation to a FIFO"; "sequence numbers are strictly increasing".
\<close>

definition q_enqueueWrite :: "string \<Rightarrow> transaction_queue \<Rightarrow> transaction_queue" where
  "q_enqueueWrite l q =
     q\<lparr>fifo := fifo q @ [\<lparr>label = l, seq = next_seq q\<rparr>],
       next_seq := Suc (next_seq q),
       history := history q @ [WriteEnqueued (next_seq q)]\<rparr>"

text \<open>
  Modelled from the spec: the single worker of the missing queue, which "processes the
  FIFO head-to-tail: awaits the current operation to full completion (success or
  failure) before starting the next". It starts the head only when no task is in
  flight.
\<close>

definition worker_takes_next :: "transaction_queue \<Rightarrow> transaction_queue" where
  "worker_takes_next q =
     (case in_flight q of
        Some running \<Rightarrow> q
      | None \<Rightarrow>
          (case fifo q of
             [] \<Rightarrow> q
           | operation # rest \<Rightarrow>
               q\<lparr>fifo := rest, in_flight := Some operation,
                 history := history q @ [WriteStarted (seq operation)]\<rparr>))"

text \<open>
  Modelled from the spec: the barrier of the missing queue, "Once the barrier is
  satisfied, \<^verbatim>\<open>operation\<close> executes immediately": every waiting read whose token the
  queue has drained through starts.
\<close>

definition release_reads :: "transaction_queue \<Rightarrow> transaction_queue" where
  "release_reads q =
     q\<lparr>waiting_reads := filter (\<lambda>(r, token). \<not> drained_through q token) (waiting_reads q),
       history := history q
         @ map (\<lambda>(r, token). ReadStarted r)
             (filter (\<lambda>(r, token). drained_through q token) (waiting_reads q))\<rparr>"

text \<open>
  Modelled from the spec: the task in flight in the missing queue settles. "The caller's
  promise resolves with the operation's result or rejects with its error; this does
  not affect sibling operations"; the operation is "destroyed immediately after its
  task settles".
\<close>

definition task_settles :: "outcome \<Rightarrow> transaction_queue \<Rightarrow> transaction_queue" where
  "task_settles result q =
     (case in_flight q of
        None \<Rightarrow> q
      | Some operation \<Rightarrow>
          release_reads
            (q\<lparr>in_flight := None,
               settlements := settlements q @ [(seq operation, result)],
               history := history q @ [WriteSettled (seq operation)]\<rparr>))"

text \<open>
  Modelled from the spec: the barrier token of the missing queue, "sequence number of
  the most recently enqueued write (or "none" if the queue is empty of writes)".
\<close>

definition barrier_token :: "transaction_queue \<Rightarrow> nat option" where
  "barrier_token q =
     (if fifo q = [] \<and> in_flight q = None then None else Some (next_seq q - 1))"

text \<open>
  Modelled from the spec: \<^verbatim>\<open>enqueueReadAfterWrite(label, operation)\<close> of the missing
  queue: "At call time, capture the barrier token"; "Schedule \<^verbatim>\<open>operation\<close> to run only
  after the queue has drained through that token". With no token the operation starts
  at once.
\<close>

definition q_enqueueReadAfterWrite :: "string \<Rightarrow> transaction_queue \<Rightarrow> transaction_queue" where
  "q_enqueueReadAfterWrite l q =
     (case barrier_token q of
        None \<Rightarrow>
          q\<lparr>next_read := Suc (next_read q),
            history := history q @ [ReadEnqueued (next_read q), ReadStarted (next_read q)]\<rparr>
      | Some token \<Rightarrow>
          q\<lparr>next_read := Suc (next_read q),
            waiting_reads := waiting_reads q @ [(next_read q, token)],
            history := history q @ [ReadEnqueued (next_read q)]\<rparr>)"

text \<open>
  Modelled from the spec: what can happen to the missing queue: a caller enqueues a
  write, the worker takes the next operation, the task in flight settles, a caller
  asks for a read after the writes.
\<close>

datatype queue_input = Write string | Take | Settle outcome | ReadAfterWrite string

text \<open>Modelled from the spec: one step of the missing queue, and a run from its start.\<close>

fun q_step :: "transaction_queue \<Rightarrow> queue_input \<Rightarrow> transaction_queue" where
  "q_step q (Write l) = q_enqueueWrite l q"
| "q_step q Take = worker_takes_next q"
| "q_step q (Settle result) = task_settles result q"
| "q_step q (ReadAfterWrite l) = q_enqueueReadAfterWrite l q"

definition q_run :: "queue_input list \<Rightarrow> transaction_queue" where
  "q_run inputs = foldl q_step empty_queue inputs"


subsection \<open>Reading the history of a run\<close>

definition is_execution :: "queue_event \<Rightarrow> bool" where
  "is_execution e = (case e of WriteStarted n \<Rightarrow> True | WriteSettled n \<Rightarrow> True | _ \<Rightarrow> False)"

definition is_enqueue :: "queue_event \<Rightarrow> bool" where
  "is_enqueue e = (case e of WriteEnqueued n \<Rightarrow> True | _ \<Rightarrow> False)"

text \<open>The writes \<open>0\<close> to \<open>n - 1\<close> run one after the other, each settled before the next starts.\<close>

definition serial :: "nat \<Rightarrow> queue_event list" where
  "serial n = concat (map (\<lambda>k. [WriteStarted k, WriteSettled k]) [0..<n])"

text \<open>\<open>b\<close> happened, and \<open>a\<close> happened before it.\<close>

definition before :: "queue_event list \<Rightarrow> queue_event \<Rightarrow> queue_event \<Rightarrow> bool" where
  "before h a b = (b \<in> set h \<and> a \<in> set (takeWhile (\<lambda>e. e \<noteq> b) h))"


definition started_count :: "transaction_queue \<Rightarrow> nat" where
  "started_count q =
     length (settlements q) + (case in_flight q of None \<Rightarrow> 0 | Some running \<Rightarrow> 1)"



subsection \<open>Invariants of the queue\<close>

text \<open>
  Sequence numbers are handed out in order; the settled writes are \<open>0\<close> to \<open>d - 1\<close>, the
  write in flight is \<open>d\<close>, the FIFO holds the rest in order; the executions so far
  are serial.
\<close>

definition q_inv :: "transaction_queue \<Rightarrow> bool" where
  "q_inv q =
     (map fst (settlements q) = [0..<length (settlements q)]
      \<and> (case in_flight q of None \<Rightarrow> True | Some running \<Rightarrow> seq running = length (settlements q))
      \<and> map seq (fifo q) = [started_count q..<next_seq q]
      \<and> started_count q \<le> next_seq q
      \<and> filter is_execution (history q) =
          serial (length (settlements q))
          @ (case in_flight q of None \<Rightarrow> [] | Some running \<Rightarrow> [WriteStarted (seq running)])
      \<and> filter is_enqueue (history q) = map WriteEnqueued [0..<next_seq q])"

text \<open>
  A waiting read has not started, waits for exactly the writes up to its token, and its
  token's write has not settled; every other read has started, after all the writes
  enqueued before it had settled.
\<close>

definition r_inv :: "transaction_queue \<Rightarrow> bool" where
  "r_inv q =
     ((\<forall>r. ReadEnqueued r \<in> set (history q) \<longleftrightarrow> r < next_read q)
      \<and> (\<forall>r. ReadStarted r \<in> set (history q) \<longrightarrow> r < next_read q)
      \<and> distinct (map fst (waiting_reads q))
      \<and> (\<forall>n. WriteSettled n \<in> set (history q) \<longleftrightarrow> n < length (settlements q))
      \<and> (\<forall>n. WriteEnqueued n \<in> set (history q) \<longleftrightarrow> n < next_seq q)
      \<and> (\<forall>(r, token) \<in> set (waiting_reads q).
            r < next_read q \<and> ReadStarted r \<notin> set (history q)
            \<and> (\<forall>n. before (history q) (WriteEnqueued n) (ReadEnqueued r) \<longleftrightarrow> n \<le> token)
            \<and> length (settlements q) \<le> token)
      \<and> (\<forall>r < next_read q. r \<notin> fst ` set (waiting_reads q) \<longrightarrow>
            ReadStarted r \<in> set (history q)
            \<and> (\<forall>n. before (history q) (WriteEnqueued n) (ReadEnqueued r)
                  \<longrightarrow> before (history q) (WriteSettled n) (ReadStarted r))))"



section \<open>The data cache\<close>

text \<open>
  \<^verbatim>\<open>gmx-cache.ts\<close> is imported by agent-gmx.ts and is not among the sources at hand;
  gmx-actions.ts only calls its \<^verbatim>\<open>invalidatePositions\<close> and \<^verbatim>\<open>invalidateTokens\<close>. The cache is
  modelled from the specification (4.3 and the data model), as a state machine
  whose inputs are the two entry points and the settlement of a compute in flight.
  The clock is an input: every call and every settlement comes with its time, in
  milliseconds. A compute is an opaque closure: what it settles with comes with the
  input that settles it.
\<close>

text \<open>
  Modelled from the spec: CacheEntry of the missing \<^verbatim>\<open>gmx-cache.ts\<close>, "value, computed-at
  timestamp, TTL"; "marked stale (not deleted) on invalidate". The key is the argument
  of the map that holds the entries; the generation counter and the computes in flight
  are kept beside it, since a key has both before it has an entry.
\<close>

record 'v cache_entry =
  cached_value :: 'v
  computedAt :: int
  ttl :: int
  stale :: bool

text \<open>
  Modelled from the spec: a pending computation of the missing cache, tagged "with the
  key's current generation counter". Its number identifies the shared promise; its TTL
  is the one of the call that started it.
\<close>

record 'k compute =
  compute_id :: nat
  compute_key :: 'k
  compute_generation :: nat
  compute_ttl :: int

text \<open>
  Modelled from the spec: the state of the missing cache singleton. The entries and the
  generation counter of each key; the computes in flight; which call awaits which
  compute; what every call that has returned got, the error (\<open>Inl\<close>) or the value
  (\<open>Inr\<close>); the number of calls so far; the key of every invocation of a compute
  function so far.
\<close>

record ('k, 'v) data_cache =
  entries :: "'k \<Rightarrow> 'v cache_entry option"
  generation :: "'k \<Rightarrow> nat"
  computing :: "'k compute list"
  awaiting :: "(nat \<times> nat) list"
  returned :: "(nat \<times> (string + 'v)) list"
  calls :: nat
  computes :: "'k list"

text \<open>Modelled from the spec: the missing cache as "constructed once at startup".\<close>

definition empty_cache :: "('k, 'v) data_cache" where
  "empty_cache =
     \<lparr>entries = (\<lambda>k. None), generation = (\<lambda>k. 0), computing = [], awaiting = [],
      returned = [], calls = 0, computes = []\<rparr>"

text \<open>
  Modelled from the spec: freshness in the missing cache, "a value is considered fresh
  iff \<^verbatim>\<open>now - computedAt < TTL\<close> AND it has not been superseded by an invalidation issued
  after \<^verbatim>\<open>computedAt\<close>". An invalidation marks the entry stale and only a store made after
  it clears the mark.
\<close>

definition fresh :: "'v cache_entry \<Rightarrow> int \<Rightarrow> bool" where
  "fresh e now = (now - computedAt e < ttl e \<and> \<not> stale e)"

text \<open>Modelled from the spec: the "fresh, non-invalidated entry" of a key in the missing cache, if any.\<close>

definition fresh_value :: "('k, 'v) data_cache \<Rightarrow> 'k \<Rightarrow> int \<Rightarrow> 'v option" where
  "fresh_value c k now =
     (case entries c k of
        None \<Rightarrow> None
      | Some e \<Rightarrow> (if fresh e now then Some (cached_value e) else None))"

text \<open>
  Modelled from the spec: the compute that a call for the key joins in the missing
  cache, "If a compute for \<^verbatim>\<open>key\<close> is already in flight, await and return that same
  shared promise". The compute joined is the one tagged with the key's current
  generation: the specification also has \<^verbatim>\<open>invalidate\<close> guarantee that the next call
  "always recomputes, even if a compute for the prior generation was still in flight
  at invalidation time", so a compute of a prior generation is not joined.
\<close>

definition in_flight_for :: "('k, 'v) data_cache \<Rightarrow> 'k \<Rightarrow> 'k compute option" where
  "in_flight_for c k =
     find (\<lambda>p. compute_key p = k \<and> compute_generation p = generation c k) (computing c)"

text \<open>
  Modelled from the spec: \<^verbatim>\<open>getOrCompute(key, ttl, compute)\<close> of the missing cache at time
  \<open>now\<close>. A fresh entry is returned "without invoking \<^verbatim>\<open>compute\<close>"; else the call awaits
  the compute in flight; "Otherwise invoke \<^verbatim>\<open>compute\<close>, tag the pending computation with the
  key's current generation counter".
\<close>

definition getOrCompute :: "'k \<Rightarrow> int \<Rightarrow> int \<Rightarrow> ('k, 'v) data_cache \<Rightarrow> ('k, 'v) data_cache" where
  "getOrCompute k t now c =
     (case fresh_value c k now of
        Some v \<Rightarrow> c\<lparr>calls := Suc (calls c), returned := returned c @ [(calls c, Inr v)]\<rparr>
      | None \<Rightarrow>
          (case in_flight_for c k of
             Some p \<Rightarrow> c\<lparr>calls := Suc (calls c), awaiting := awaiting c @ [(calls c, compute_id p)]\<rparr>
           | None \<Rightarrow>
               c\<lparr>calls := Suc (calls c),
                 computes := computes c @ [k],
                 computing := computing c
                   @ [\<lparr>compute_id = length (computes c), compute_key = k,
                       compute_generation = generation c k, compute_ttl = t\<rparr>],
                 awaiting := awaiting c @ [(calls c, length (computes c))]\<rparr>))"

text \<open>
  Modelled from the spec: the shared promise of a compute of the missing cache settles:
  every call that awaits it returns with its outcome, and the compute is no longer in
  flight.
\<close>

definition deliver :: "nat \<Rightarrow> (string + 'v) \<Rightarrow> ('k, 'v) data_cache \<Rightarrow> ('k, 'v) data_cache" where
  "deliver i outcome c =
     c\<lparr>computing := filter (\<lambda>p. compute_id p \<noteq> i) (computing c),
       awaiting := filter (\<lambda>(a, j). j \<noteq> i) (awaiting c),
       returned := returned c @ map (\<lambda>(a, j). (a, outcome)) (filter (\<lambda>(a, j). j = i) (awaiting c))\<rparr>"

text \<open>
  Modelled from the spec: a compute of the missing cache settles at time \<open>now\<close>. "on
  success store the result with a fresh timestamp -- but only if no invalidation for
  that key occurred after the compute started (generation check); if the generation is
  stale, discard the result and leave the entry marked stale". On failure "the entry
  remains in its pre-call state (no negative caching)".
\<close>

definition compute_settles :: "nat \<Rightarrow> (string + 'v) \<Rightarrow> int \<Rightarrow> ('k, 'v) data_cache \<Rightarrow> ('k, 'v) data_cache" where
  "compute_settles i outcome now c =
     (case find (\<lambda>p. compute_id p = i) (computing c) of
        None \<Rightarrow> c
      | Some p \<Rightarrow>
          (case outcome of
             Inl err \<Rightarrow> deliver i outcome c
           | Inr v \<Rightarrow>
               (if compute_generation p = generation c (compute_key p)
                then (deliver i outcome c)
                       \<lparr>entries := (entries c)(compute_key p \<mapsto>
                          \<lparr>cached_value = v, computedAt = now, ttl = compute_ttl p, stale = False\<rparr>)\<rparr>
                else deliver i outcome c)))"

text \<open>
  Modelled from the spec: \<^verbatim>\<open>invalidate(tag)\<close> of the missing cache, which "increments the
  generation counter for all entries matching \<^verbatim>\<open>tag\<close> and marks them stale immediately".
  A tag is the list of the keys it matches.
\<close>

definition invalidate :: "'k list \<Rightarrow> ('k, 'v) data_cache \<Rightarrow> ('k, 'v) data_cache" where
  "invalidate tag c =
     c\<lparr>generation := (\<lambda>k. if k \<in> set tag then Suc (generation c k) else generation c k),
       entries := (\<lambda>k. if k \<in> set tag then map_option (\<lambda>e. e\<lparr>stale := True\<rparr>) (entries c k)
                       else entries c k)\<rparr>"

text \<open>
  Modelled from the spec: what can happen to the missing cache: a call of
  \<^verbatim>\<open>getOrCompute\<close> with its key, TTL and time; the settlement of a compute with its
  outcome and time; a call of \<^verbatim>\<open>invalidate\<close>.
\<close>

datatype ('k, 'v) cache_input =
    GetOrCompute 'k int int
  | ComputeSettles nat "string + 'v" int
  | Invalidate "'k list"

text \<open>Modelled from the spec: one step of the missing cache, and a run from its start.\<close>

fun c_step :: "('k, 'v) data_cache \<Rightarrow> ('k, 'v) cache_input \<Rightarrow> ('k, 'v) data_cache" where
  "c_step c (GetOrCompute k t now) = getOrCompute k t now c"
| "c_step c (ComputeSettles i outcome now) = compute_settles i outcome now c"
| "c_step c (Invalidate tag) = invalidate tag c"

definition c_run :: "('k, 'v) cache_input list \<Rightarrow> ('k, 'v) data_cache" where
  "c_run inputs = foldl c_step empty_cache inputs"

subsection \<open>Reading a run of the cache\<close>





subsection \<open>Invariants of the cache\<close>

text \<open>
  Computes in flight are numbered below the number of invocations and pairwise
  distinct; at most one compute in flight per key carries the key's current generation;
  no compute is tagged with a generation of the future; every waiting call awaits an
  invocation that was made.
\<close>

definition c_inv :: "('k, 'v) data_cache \<Rightarrow> bool" where
  "c_inv c =
     ((\<forall>p \<in> set (computing c). compute_id p < length (computes c))
      \<and> distinct (map compute_id (computing c))
      \<and> (\<forall>p \<in> set (computing c). \<forall>q \<in> set (computing c).
            compute_key p = compute_key q
            \<and> compute_generation p = generation c (compute_key p)
            \<and> compute_generation q = generation c (compute_key q) \<longrightarrow> p = q)
      \<and> (\<forall>p \<in> set (computing c). compute_generation p \<le> generation c (compute_key p))
      \<and> (\<forall>(a, i) \<in> set (awaiting c). a < calls c \<and> i < length (computes c)))"

text \<open>
  What a superseded compute can still do: compute \<open>i\<close> of key \<open>k\<close>, if still in flight, is
  tagged with a generation of the past, and only calls made before call \<open>n0\<close> await it.
\<close>

definition superseded :: "nat \<Rightarrow> 'k \<Rightarrow> nat \<Rightarrow> ('k, 'v) data_cache \<Rightarrow> bool" where
  "superseded i k n0 c =
     ((\<forall>q \<in> set (computing c). compute_id q = i \<longrightarrow>
          compute_key q = k \<and> compute_generation q < generation c k)
      \<and> (\<forall>(a, j) \<in> set (awaiting c). j = i \<longrightarrow> a < n0)
      \<and> i < length (computes c))"




section \<open>Properties of the action handlers\<close>

lemmas sample_defs = sample_sdk_def sample_reads_def sample_tokens_def eth_long_def eth_market_def
  weth_def usdc_def rejecting_sdk_def unformatting_sdk_def sample_close_def sample_stop_loss_def sample_swap_def
  sample_cancel_def

lemmas monad_defs = bind_def await_def return_def throw_def sync_def call_def unless_def lookup_def
  try_catch_def catch_rethrow_def

lemmas step_defs = fetch_markets_def market_and_token_data_def find_position_def both_tokens_def
  invalidate_positions_def when_given_def name_of_def decreaseAmounts_def BigInt_of_number_def
  or_125_def given_def swap_amount_def

subsection \<open>Steps that neither write nor invalidate\<close>

lemma quiet_Nil [simp]: "quiet []"
  by (simp add: quiet_def)

lemma quiet_append [simp]: "quiet (a @ b) = (quiet a \<and> quiet b)"
  by (simp add: quiet_def)

lemma quiet_Read [simp]: "quiet [Read s c]"
  by (simp add: quiet_def write_of_def)

lemma silent_return [simp]: "silent (return x)"
  by (simp add: silent_def return_def)

lemma silent_throw [simp]: "silent (throw m)"
  by (simp add: silent_def throw_def)

lemma silent_sync [simp]: "silent (sync r)"
  by (simp add: silent_def sync_def)

lemma silent_await_Read [simp]: "silent (await (Read s c) r)"
  by (simp add: silent_def await_def)

lemma silent_if [simp]: "silent a \<Longrightarrow> silent b \<Longrightarrow> silent (if c then a else b)"
  by simp

lemma silent_bind [simp]: "silent m \<Longrightarrow> (\<And>x. silent (f x)) \<Longrightarrow> silent (bind m f)"
proof -
  assume m: "silent m" and f: "\<And>x. silent (f x)"
  show "silent (bind m f)"
    unfolding silent_def
  proof
    fix t
    from m obtain d r where mt: "m t = (t @ d, r)" and qd: "quiet d"
      unfolding silent_def by blast
    show "\<exists>d r. bind m f t = (t @ d, r) \<and> quiet d"
    proof (cases r)
      case (Inl e)
      with mt qd show ?thesis by (auto simp: bind_def)
    next
      case (Inr x)
      from f [of x] obtain d' r' where fx: "f x (t @ d) = ((t @ d) @ d', r')" and qd': "quiet d'"
        unfolding silent_def by blast
      with mt qd Inr have "bind m f t = (t @ (d @ d'), r') \<and> quiet (d @ d')"
        by (simp add: bind_def)
      then show ?thesis by blast
    qed
  qed
qed

lemma silent_unless [simp]: "silent (unless c m)"
  by (simp add: unless_def)

lemma silent_lookup [simp]: "silent (lookup m k msg)"
  by (simp add: lookup_def split: option.splits)

lemma silent_when_given [simp]: "silent (when_given f c)"
  by (simp add: when_given_def split: option.splits)

lemma silent_both_tokens [simp]: "silent (both_tokens ts a b m)"
  by (simp add: both_tokens_def split: option.splits)

lemma silent_find_position [simp]: "silent (find_position ps a m)"
  by (simp add: find_position_def split: option.splits)

lemma silent_market_and_token_data [simp]: "silent (market_and_token_data r m)"
  by (simp add: market_and_token_data_def split: option.splits)

lemma silent_name_of [simp]: "silent (name_of m)"
  by (simp add: name_of_def split: option.splits)

lemma silent_decreaseAmounts [simp]: "silent (decreaseAmounts p d)"
  by (simp add: decreaseAmounts_def)

lemma silent_swap_amount [simp]: "silent (swap_amount d a b)"
  by (simp add: swap_amount_def split: option.splits)

lemma silent_fetch_markets [simp]: "silent (fetch_markets sdk c)"
  by (simp add: fetch_markets_def split: option.splits)

lemma silent_case_option [simp]:
  "silent a \<Longrightarrow> (\<And>x. silent (b x)) \<Longrightarrow> silent (case c of None \<Rightarrow> a | Some x \<Rightarrow> b x)"
  by (simp split: option.splits)

subsection \<open>Composing a write handler\<close>

lemma outcome_ok_prepend:
  "quiet d \<Longrightarrow> outcome_ok sdk W ivs bt af d' r \<Longrightarrow> outcome_ok sdk W ivs bt af (d @ d') r"
  unfolding outcome_ok_def
  by (elim disjE exE conjE)
     (simp, (rule disjI2, rule disjI1, rule exI [of _ "d @ _"], simp),
      (rule disjI2, rule disjI2, rule disjI1, rule exI [of _ "d @ _"], simp),
      (rule disjI2, rule disjI2, rule disjI2, rule disjI1, rule exI [of _ "d @ _"], simp),
      (rule disjI2, rule disjI2, rule disjI2, rule disjI2, rule exI [of _ "d @ _"], simp))

lemma disciplined_bind:
  assumes m: "silent m" and f: "\<And>x. disciplined sdk W ivs bt af (f x)"
  shows "disciplined sdk W ivs bt af (bind m f)"
  unfolding disciplined_def
proof
  fix t
  from m obtain d r where mt: "m t = (t @ d, r)" and qd: "quiet d"
    unfolding silent_def by blast
  show "\<exists>d r. bind m f t = (t @ d, r) \<and> outcome_ok sdk W ivs bt af d r"
  proof (cases r)
    case (Inl e)
    with mt qd have "bind m f t = (t @ d, Inl e) \<and> outcome_ok sdk W ivs bt af d (Inl e)"
      by (simp add: bind_def outcome_ok_def)
    then show ?thesis by blast
  next
    case (Inr x)
    from f [of x] obtain d' r' where fx: "f x (t @ d) = ((t @ d) @ d', r')"
      and ok: "outcome_ok sdk W ivs bt af d' r'"
      unfolding disciplined_def by blast
    from qd ok have "outcome_ok sdk W ivs bt af (d @ d') r'" by (rule outcome_ok_prepend)
    with mt Inr fx have "bind m f t = (t @ (d @ d'), r') \<and> outcome_ok sdk W ivs bt af (d @ d') r'"
      by (simp add: bind_def)
    then show ?thesis by blast
  qed
qed

lemma disciplined_prod:
  "(\<And>a b. disciplined sdk W ivs bt af (f a b))
     \<Longrightarrow> disciplined sdk W ivs bt af (case p of (a, b) \<Rightarrow> f a b)"
  by (cases p) simp

text \<open>The write, then the invalidations, then the result.\<close>

lemma disciplined_write:
  assumes o: "isl out = rejected sdk W"
    and i: "\<And>t. invalidation t = (t @ ivs, Inr ())"
    and s: "\<And>result. success (res result)"
  shows "disciplined sdk W ivs bt af
           (bind (await W out) (\<lambda>result. bind invalidation (\<lambda>_. return (res result))))"
  unfolding disciplined_def
proof
  fix t
  let ?m = "bind (await W out) (\<lambda>result. bind invalidation (\<lambda>_. return (res result)))"
  show "\<exists>d r. ?m t = (t @ d, r) \<and> outcome_ok sdk W ivs bt af d r"
  proof (cases out)
    case (Inl e)
    with o have "?m t = (t @ [W], Inl e) \<and> outcome_ok sdk W ivs bt af [W] (Inl e)"
      by (simp add: bind_def await_def outcome_ok_def)
    then show ?thesis by blast
  next
    case (Inr x)
    with o i s have "?m t = (t @ (W # ivs), Inr (res x))
       \<and> outcome_ok sdk W ivs bt af (W # ivs) (Inr (res x))"
      by (simp add: bind_def await_def return_def outcome_ok_def)
    then show ?thesis by blast
  qed
qed

text \<open>The write, then \<^verbatim>\<open>formatTokenAmount\<close>, then the invalidations, then the result.\<close>

lemma disciplined_write_format:
  assumes o: "isl out = rejected sdk W"
    and i: "\<And>t. invalidation t = (t @ ivs, Inr ())"
    and s: "\<And>result. success (res result)"
  shows "disciplined sdk W ivs (format_throws sdk) af
           (bind (await W out) (\<lambda>result.
            bind (sync (formatTokenAmount sdk n d)) (\<lambda>_.
            bind invalidation (\<lambda>_. return (res result)))))"
  unfolding disciplined_def
proof
  fix t
  let ?m = "bind (await W out) (\<lambda>result.
            bind (sync (formatTokenAmount sdk n d)) (\<lambda>_.
            bind invalidation (\<lambda>_. return (res result))))"
  show "\<exists>d r. ?m t = (t @ d, r) \<and> outcome_ok sdk W ivs (format_throws sdk) af d r"
  proof (cases out)
    case (Inl e)
    with o have "?m t = (t @ [W], Inl e)
       \<and> outcome_ok sdk W ivs (format_throws sdk) af [W] (Inl e)"
      by (simp add: bind_def await_def outcome_ok_def)
    then show ?thesis by blast
  next
    case (Inr x)
    show ?thesis
    proof (cases "formatTokenAmount sdk n d")
      case (Inl e)
      then have "format_throws sdk e" unfolding format_throws_def by blast
      with o Inr Inl have "?m t = (t @ [W], Inl e)
         \<and> outcome_ok sdk W ivs (format_throws sdk) af [W] (Inl e)"
        by (simp add: bind_def await_def sync_def outcome_ok_def)
      then show ?thesis by blast
    next
      case fmt: (Inr y)
      with o i s Inr have "?m t = (t @ (W # ivs), Inr (res x))
         \<and> outcome_ok sdk W ivs (format_throws sdk) af (W # ivs) (Inr (res x))"
        by (simp add: bind_def await_def sync_def return_def outcome_ok_def)
      then show ?thesis by blast
    qed
  qed
qed

text \<open>The write, then the invalidations, then \<^verbatim>\<open>formatTokenAmount\<close> twice, then the result.\<close>

lemma disciplined_write_details:
  assumes o: "isl out = rejected sdk W"
    and i: "\<And>t. invalidation t = (t @ ivs, Inr ())"
    and s: "\<And>result. success (res result)"
  shows "disciplined sdk W ivs bt (format_throws sdk)
           (bind (await W out) (\<lambda>result.
            bind invalidation (\<lambda>_.
            bind (sync (formatTokenAmount sdk n d)) (\<lambda>_.
            bind (sync (formatTokenAmount sdk n' d')) (\<lambda>_. return (res result))))))"
  unfolding disciplined_def
proof
  fix t
  let ?m = "bind (await W out) (\<lambda>result.
            bind invalidation (\<lambda>_.
            bind (sync (formatTokenAmount sdk n d)) (\<lambda>_.
            bind (sync (formatTokenAmount sdk n' d')) (\<lambda>_. return (res result)))))"
  show "\<exists>d r. ?m t = (t @ d, r) \<and> outcome_ok sdk W ivs bt (format_throws sdk) d r"
  proof (cases out)
    case (Inl e)
    with o have "?m t = (t @ [W], Inl e)
       \<and> outcome_ok sdk W ivs bt (format_throws sdk) [W] (Inl e)"
      by (simp add: bind_def await_def outcome_ok_def)
    then show ?thesis by blast
  next
    case (Inr x)
    show ?thesis
    proof (cases "formatTokenAmount sdk n d")
      case (Inl e)
      then have "format_throws sdk e" unfolding format_throws_def by blast
      with o i Inr Inl have "?m t = (t @ (W # ivs), Inl e)
         \<and> outcome_ok sdk W ivs bt (format_throws sdk) (W # ivs) (Inl e)"
        by (simp add: bind_def await_def sync_def outcome_ok_def)
      then show ?thesis by blast
    next
      case first: (Inr y)
      show ?thesis
      proof (cases "formatTokenAmount sdk n' d'")
        case (Inl e)
        then have "format_throws sdk e" unfolding format_throws_def by blast
        with o i Inr first Inl have "?m t = (t @ (W # ivs), Inl e)
           \<and> outcome_ok sdk W ivs bt (format_throws sdk) (W # ivs) (Inl e)"
          by (simp add: bind_def await_def sync_def outcome_ok_def)
        then show ?thesis by blast
      next
        case second: (Inr z)
        with o i s Inr first have "?m t = (t @ (W # ivs), Inr (res x))
           \<and> outcome_ok sdk W ivs bt (format_throws sdk) (W # ivs) (Inr (res x))"
          by (simp add: bind_def await_def sync_def return_def outcome_ok_def)
        then show ?thesis by blast
      qed
    qed
  qed
qed

lemma handled_try_catch:
  assumes "disciplined sdk W ivs bt af body"
  shows "handled sdk W ivs bt af msg (try_catch body (\<lambda>e. return (errorResult msg e)) [])"
proof -
  from assms obtain d r where b: "body [] = (d, r)" and ok: "outcome_ok sdk W ivs bt af d r"
    unfolding disciplined_def by (metis append_Nil)
  show ?thesis
  proof (cases r)
    case (Inl e)
    with b have "try_catch body (\<lambda>e. return (errorResult msg e)) [] = (d, Inr (errorResult msg e))"
      by (simp add: try_catch_def return_def)
    with ok Inl show ?thesis
      by (auto simp: handled_def outcome_ok_def)
  next
    case (Inr x)
    with b have "try_catch body (\<lambda>e. return (errorResult msg e)) [] = (d, Inr x)"
      by (simp add: try_catch_def)
    with ok Inr show ?thesis
      by (auto simp: handled_def outcome_ok_def)
  qed
qed

lemma isl_catch_rethrow [simp]: "isl (catch_rethrow r f) = isl r"
  by (simp add: catch_rethrow_def split: sum.splits)

lemma invalidate_positions_eq:
  "invalidate_positions c t = (t @ (if c = None then [] else [invalidatePositions]), Inr ())"
  by (simp add: invalidate_positions_def call_def return_def)

lemma invalidate_both_eq:
  "(if c = None then return () else bind (call invalidateTokens) (\<lambda>_. call invalidatePositions)) t
     = (t @ (if c = None then [] else [invalidateTokens, invalidatePositions]), Inr ())"
  by (simp add: call_def return_def bind_def)

subsection \<open>The shape of each write handler\<close>

lemma disciplined_cancel_orders:
  "disciplined sdk (write_event (Cancel_orders data)) (cache_ivs c (Cancel_orders data))
     (stops_between sdk (Cancel_orders data)) (stops_after sdk (Cancel_orders data))
     (cancel_orders_try sdk c data)"
  unfolding cancel_orders_try_def
  apply (simp only: write_event_def cache_ivs_def invalidated_by_def stops_between_def
      stops_after_def write_action.case)
  apply ((rule disciplined_write | rule disciplined_write_format | rule disciplined_write_details
       | rule disciplined_bind | rule disciplined_prod
       | rule invalidate_positions_eq | rule invalidate_both_eq
       | (simp add: rejected_def write_of_def writeResult_def; fail))+)
  done

lemma disciplined_open_long_market:
  "disciplined sdk (write_event (Open_long_market data)) (cache_ivs c (Open_long_market data))
     (stops_between sdk (Open_long_market data)) (stops_after sdk (Open_long_market data))
     (open_long_market_try sdk c data)"
  unfolding open_long_market_try_def
  apply (simp only: write_event_def cache_ivs_def invalidated_by_def stops_between_def
      stops_after_def write_action.case)
  apply ((rule disciplined_write | rule disciplined_write_format | rule disciplined_write_details
       | rule disciplined_bind | rule disciplined_prod
       | rule invalidate_positions_eq | rule invalidate_both_eq
       | (simp add: rejected_def write_of_def writeResult_def; fail))+)
  done

lemma disciplined_open_long_limit:
  "disciplined sdk (write_event (Open_long_limit data)) (cache_ivs c (Open_long_limit data))
     (stops_between sdk (Open_long_limit data)) (stops_after sdk (Open_long_limit data))
     (open_long_limit_try sdk c data)"
  unfolding open_long_limit_try_def
  apply (simp only: write_event_def cache_ivs_def invalidated_by_def stops_between_def
      stops_after_def write_action.case)
  apply ((rule disciplined_write | rule disciplined_write_format | rule disciplined_write_details
       | rule disciplined_bind | rule disciplined_prod
       | rule invalidate_positions_eq | rule invalidate_both_eq
       | (simp add: rejected_def write_of_def writeResult_def; fail))+)
  done

lemma disciplined_open_short_market:
  "disciplined sdk (write_event (Open_short_market data)) (cache_ivs c (Open_short_market data))
     (stops_between sdk (Open_short_market data)) (stops_after sdk (Open_short_market data))
     (open_short_market_try sdk c data)"
  unfolding open_short_market_try_def
  apply (simp only: write_event_def cache_ivs_def invalidated_by_def stops_between_def
      stops_after_def write_action.case)
  apply ((rule disciplined_write | rule disciplined_write_format | rule disciplined_write_details
       | rule disciplined_bind | rule disciplined_prod
       | rule invalidate_positions_eq | rule invalidate_both_eq
       | (simp add: rejected_def write_of_def writeResult_def; fail))+)
  done

lemma disciplined_open_short_limit:
  "disciplined sdk (write_event (Open_short_limit data)) (cache_ivs c (Open_short_limit data))
     (stops_between sdk (Open_short_limit data)) (stops_after sdk (Open_short_limit data))
     (open_short_limit_try sdk c data)"
  unfolding open_short_limit_try_def
  apply (simp only: write_event_def cache_ivs_def invalidated_by_def stops_between_def
      stops_after_def write_action.case)
  apply ((rule disciplined_write | rule disciplined_write_format | rule disciplined_write_details
       | rule disciplined_bind | rule disciplined_prod
       | rule invalidate_positions_eq | rule invalidate_both_eq
       | (simp add: rejected_def write_of_def writeResult_def; fail))+)
  done

lemma disciplined_close_position:
  "disciplined sdk (write_event (Close_position data)) (cache_ivs c (Close_position data))
     (stops_between sdk (Close_position data)) (stops_after sdk (Close_position data))
     (close_position_try sdk c data)"
  unfolding close_position_try_def
  apply (simp only: write_event_def cache_ivs_def invalidated_by_def stops_between_def
      stops_after_def write_action.case)
  apply ((rule disciplined_write | rule disciplined_write_format | rule disciplined_write_details
       | rule disciplined_bind | rule disciplined_prod
       | rule invalidate_positions_eq | rule invalidate_both_eq
       | (simp add: rejected_def write_of_def writeResult_def; fail))+)
  done

lemma disciplined_swap_tokens:
  "disciplined sdk (write_event (Swap_tokens data)) (cache_ivs c (Swap_tokens data))
     (stops_between sdk (Swap_tokens data)) (stops_after sdk (Swap_tokens data))
     (swap_tokens_try sdk c data)"
  unfolding swap_tokens_try_def
  apply (simp only: write_event_def cache_ivs_def invalidated_by_def stops_between_def
      stops_after_def write_action.case)
  apply ((rule disciplined_write | rule disciplined_write_format | rule disciplined_write_details
       | rule disciplined_bind | rule disciplined_prod
       | rule invalidate_positions_eq | rule invalidate_both_eq
       | (simp add: rejected_def write_of_def writeResult_def; fail))+)
  done

lemma disciplined_set_take_profit:
  "disciplined sdk (write_event (Set_take_profit data)) (cache_ivs c (Set_take_profit data))
     (stops_between sdk (Set_take_profit data)) (stops_after sdk (Set_take_profit data))
     (set_take_profit_try sdk c data)"
  unfolding set_take_profit_try_def
  apply (simp only: write_event_def cache_ivs_def invalidated_by_def stops_between_def
      stops_after_def write_action.case)
  apply ((rule disciplined_write | rule disciplined_write_format | rule disciplined_write_details
       | rule disciplined_bind | rule disciplined_prod
       | rule invalidate_positions_eq | rule invalidate_both_eq
       | (simp add: rejected_def write_of_def writeResult_def; fail))+)
  done

lemma disciplined_set_stop_loss:
  "disciplined sdk (write_event (Set_stop_loss data)) (cache_ivs c (Set_stop_loss data))
     (stops_between sdk (Set_stop_loss data)) (stops_after sdk (Set_stop_loss data))
     (set_stop_loss_try sdk c data)"
  unfolding set_stop_loss_try_def
  apply (simp only: write_event_def cache_ivs_def invalidated_by_def stops_between_def
      stops_after_def write_action.case)
  apply ((rule disciplined_write | rule disciplined_write_format | rule disciplined_write_details
       | rule disciplined_bind | rule disciplined_prod
       | rule invalidate_positions_eq | rule invalidate_both_eq
       | (simp add: rejected_def write_of_def writeResult_def; fail))+)
  done

lemma disciplined_try_block:
  "disciplined sdk (write_event w) (cache_ivs c w) (stops_between sdk w) (stops_after sdk w)
     (try_block sdk c (Write_action w))"
  by (cases w)
     (simp_all only: try_block_def write_action.case action_call.case
        disciplined_cancel_orders disciplined_open_long_market disciplined_open_long_limit
        disciplined_open_short_market disciplined_open_short_limit disciplined_close_position
        disciplined_swap_tokens disciplined_set_take_profit disciplined_set_stop_loss)

lemmas write_defs = write_handler_def cancel_orders_def open_long_market_def open_long_limit_def
  open_short_market_def open_short_limit_def close_position_def swap_tokens_def
  set_take_profit_def set_stop_loss_def

lemma write_handler_try_catch:
  "write_handler sdk c w =
     try_catch (try_block sdk c (Write_action w))
       (\<lambda>e. return (errorResult (failure_message (Write_action w)) e))"
  by (cases w) (simp_all add: write_defs try_block_def failure_message_def)

lemma handled_write_handler:
  "handled sdk (write_event w) (cache_ivs c w) (stops_between sdk w) (stops_after sdk w)
     (failure_message (Write_action w)) (write_handler sdk c w [])"
  unfolding write_handler_try_catch
  by (rule handled_try_catch) (rule disciplined_try_block)

subsection \<open>Reading the shapes\<close>





lemma write_event_is_write: "write_of (write_event w) \<noteq> None"
  by (cases w) (simp_all add: write_event_def write_of_def)











lemma cache_ivs_facts:
  "invalidations (cache_ivs c w) = cache_ivs c w" "\<not> write_resolved sdk (cache_ivs c w)"
  by (cases w; simp add: cache_ivs_def invalidated_by_def invalidations_def write_resolved_def write_of_def)+

subsection \<open>Read handlers\<close>

lemmas read_defs = read_handler_def get_btc_eth_markets_def get_daily_volumes_def get_tokens_data_def
  get_portfolio_balance_def get_positions_def get_orders_def get_trading_history_def
  get_synth_btc_predictions_def get_synth_eth_predictions_def get_btc_technical_analysis_def
  get_eth_technical_analysis_def get_btc_eth_markets_try_def get_daily_volumes_try_def
  get_tokens_data_try_def get_portfolio_balance_try_def get_positions_try_def get_orders_try_def
  get_trading_history_try_def get_synth_btc_predictions_try_def
  get_synth_eth_predictions_try_def get_btc_technical_analysis_try_def
  get_eth_technical_analysis_try_def direct_read_def

lemma read_trace:
  "fst (read_handler sdk a t) =
     t @ [if a = Get_positions \<or> a = Get_orders then enqueueReadAfterWrite (read_name a) (query_of a)
          else Query (query_of a)]"
  by (cases a; cases "queries sdk (query_of a)")
     (simp_all add: read_defs query_of_def read_name_def try_catch_def bind_def await_def return_def)

lemma write_handler_route:
  assumes "ev \<in> set (fst (createGmxActions sdk gmxDataCache (Write_action w)))"
    and "write_of ev \<noteq> None"
  shows "ev = write_event w"
proof -
  obtain t r where out: "write_handler sdk gmxDataCache w [] = (t, r)"
    by (cases "write_handler sdk gmxDataCache w []")
  have q: "\<And>p. quiet p \<Longrightarrow> ev \<notin> set p"
    using assms(2) by (auto simp: quiet_def list_all_iff)
  have c: "ev \<notin> set (cache_ivs gmxDataCache w)"
    using assms(2) by (cases w) (auto simp: cache_ivs_def invalidated_by_def write_of_def)
  from assms(1) out have "ev \<in> set t" by (simp add: createGmxActions_def)
  with handled_write_handler [of sdk w gmxDataCache] out q c show ?thesis
    by (auto simp: handled_def)
qed

subsection \<open>A call that rejects ends the try block\<close>

lemma faithful_eventless:
  assumes "\<And>t. \<exists>r. m t = (t, r)"
  shows "faithful sdk cc c m"
  unfolding faithful_def
proof
  fix t
  from assms obtain r where "m t = (t, r)" by blast
  then have "m t = (t @ [], r) \<and> ends_faithfully sdk cc c [] r"
    by (simp add: ends_faithfully_def)
  then show "\<exists>d r. m t = (t @ d, r) \<and> ends_faithfully sdk cc c d r"
    by blast
qed

lemma faithful_return: "faithful sdk cc c (return x)"
  by (rule faithful_eventless) (simp add: return_def)

lemma faithful_throw: "faithful sdk cc c (throw m)"
  by (rule faithful_eventless) (simp add: throw_def)

lemma faithful_sync: "faithful sdk cc c (sync r)"
  by (rule faithful_eventless) (simp add: sync_def)

lemma faithful_unless: "faithful sdk cc c (unless b m)"
  by (rule faithful_eventless) (simp add: unless_def return_def throw_def)

lemma faithful_lookup: "faithful sdk cc c (lookup m k msg)"
  by (rule faithful_eventless) (simp add: lookup_def return_def throw_def split: option.splits)

lemma faithful_when_given: "faithful sdk cc c (when_given field convert)"
  by (rule faithful_eventless)
     (simp add: when_given_def return_def sync_def bind_def split: option.splits sum.splits)

lemma faithful_both_tokens: "faithful sdk cc c (both_tokens ts a b msg)"
  by (rule faithful_eventless)
     (simp add: both_tokens_def return_def throw_def split: option.splits)

lemma faithful_find_position: "faithful sdk cc c (find_position ps a msg)"
  by (rule faithful_eventless)
     (simp add: find_position_def return_def throw_def split: option.splits)

lemma faithful_market_and_token_data: "faithful sdk cc c (market_and_token_data r msg)"
  by (rule faithful_eventless)
     (simp add: market_and_token_data_def return_def throw_def split: option.splits)

lemma faithful_name_of: "faithful sdk cc c (name_of m)"
  by (rule faithful_eventless) (simp add: name_of_def return_def throw_def split: option.splits)

lemma faithful_decreaseAmounts: "faithful sdk cc c (decreaseAmounts p d)"
  by (rule faithful_eventless)
     (simp add: decreaseAmounts_def return_def throw_def sync_def bind_def split: sum.splits)

lemma faithful_swap_amount: "faithful sdk cc c (swap_amount d a b)"
  by (rule faithful_eventless)
     (simp add: swap_amount_def return_def throw_def sync_def bind_def
        split: option.splits sum.splits)

lemma faithful_call:
  assumes "call_rejection sdk cc ev = None"
  shows "faithful sdk cc c (call ev)"
  unfolding faithful_def
proof
  fix t
  have "call ev t = (t @ [ev], Inr ()) \<and> ends_faithfully sdk cc c [ev] (Inr ())"
    using assms by (simp add: call_def ends_faithfully_def)
  then show "\<exists>d r. call ev t = (t @ d, r) \<and> ends_faithfully sdk cc c d r"
    by blast
qed

lemma faithful_await:
  assumes "\<And>e. call_rejection sdk cc ev = Some e \<Longrightarrow> \<exists>e' \<in> set (rethrown c ev e). out = Inl e'"
  shows "faithful sdk cc c (await ev out)"
  unfolding faithful_def
proof
  fix t
  have "await ev out t = (t @ [ev], out) \<and> ends_faithfully sdk cc c [ev] out"
    using assms by (auto simp: await_def ends_faithfully_def)
  then show "\<exists>d r. await ev out t = (t @ d, r) \<and> ends_faithfully sdk cc c d r"
    by blast
qed

lemma ends_faithfully_append:
  assumes d: "ends_faithfully sdk cc c d (Inr x)" and d': "ends_faithfully sdk cc c d' r"
  shows "ends_faithfully sdk cc c (d @ d') r"
  unfolding ends_faithfully_def
proof (intro allI impI)
  fix ev e
  assume a: "ev \<in> set (d @ d') \<and> call_rejection sdk cc ev = Some e"
  have "ev \<notin> set d"
  proof
    assume "ev \<in> set d"
    with a d have "\<exists>e' \<in> set (rethrown c ev e). Inr x = Inl e'"
      unfolding ends_faithfully_def by blast
    then show False by simp
  qed
  with a have "ev \<in> set d'" by simp
  with a d' obtain p where "d' = p @ [ev]" and r: "\<exists>e' \<in> set (rethrown c ev e). r = Inl e'"
    unfolding ends_faithfully_def by blast
  then have "d @ d' = (d @ p) @ [ev]" by simp
  with r show "(\<exists>p. d @ d' = p @ [ev]) \<and> (\<exists>e' \<in> set (rethrown c ev e). r = Inl e')"
    by blast
qed

lemma faithful_bind:
  assumes m: "faithful sdk cc c m" and f: "\<And>x. faithful sdk cc c (f x)"
  shows "faithful sdk cc c (bind m f)"
  unfolding faithful_def
proof
  fix t
  from m obtain d r where mt: "m t = (t @ d, r)" and md: "ends_faithfully sdk cc c d r"
    unfolding faithful_def by blast
  show "\<exists>d r. bind m f t = (t @ d, r) \<and> ends_faithfully sdk cc c d r"
  proof (cases r)
    case (Inl e)
    with mt have "bind m f t = (t @ d, Inl e)" by (simp add: bind_def)
    moreover from md Inl have "ends_faithfully sdk cc c d (Inl e)"
      by (simp add: ends_faithfully_def)
    ultimately show ?thesis by blast
  next
    case (Inr x)
    from f [of x] obtain d' r' where fx: "f x (t @ d) = ((t @ d) @ d', r')"
      and fd: "ends_faithfully sdk cc c d' r'"
      unfolding faithful_def by blast
    from md Inr fd have "ends_faithfully sdk cc c (d @ d') r'"
      by (simp add: ends_faithfully_append)
    moreover have "bind m f t = (t @ (d @ d'), r')"
      using mt Inr fx by (simp add: bind_def)
    ultimately show ?thesis by blast
  qed
qed

lemma faithful_prod:
  "(\<And>a b. faithful sdk cc c (f a b)) \<Longrightarrow> faithful sdk cc c (case p of (a, b) \<Rightarrow> f a b)"
  by (cases p) simp

lemma faithful_if:
  "faithful sdk cc c a \<Longrightarrow> faithful sdk cc c b \<Longrightarrow> faithful sdk cc c (if x then a else b)"
  by simp

lemma faithful_case_option:
  "faithful sdk cc c a \<Longrightarrow> (\<And>x. faithful sdk cc c (b x))
     \<Longrightarrow> faithful sdk cc c (case x of None \<Rightarrow> a | Some y \<Rightarrow> b y)"
  by (simp split: option.splits)

lemmas faithful_intros = faithful_bind faithful_prod faithful_if faithful_case_option
  faithful_return faithful_throw faithful_sync faithful_unless faithful_lookup
  faithful_when_given faithful_both_tokens faithful_find_position
  faithful_market_and_token_data faithful_name_of faithful_decreaseAmounts
  faithful_swap_amount faithful_call faithful_await

lemmas rejection_defs = call_rejection_def read_rejection_def rejection_def rethrown_def
  write_rethrown_def catch_rethrow_def

lemma faithful_cancel_orders:
  "faithful sdk cc (Write_action (Cancel_orders data)) (cancel_orders_try sdk cc data)"
  unfolding cancel_orders_try_def fetch_markets_def invalidate_positions_def
  by (cases cc; simp only: option.case simp_thms if_True if_False option.distinct;
      intro faithful_intros)
     (auto simp: rejection_defs split: sum.splits)

lemma faithful_open_long_market:
  "faithful sdk cc (Write_action (Open_long_market data)) (open_long_market_try sdk cc data)"
  unfolding open_long_market_try_def fetch_markets_def invalidate_positions_def
  by (cases cc; simp only: option.case simp_thms if_True if_False option.distinct;
      intro faithful_intros)
     (auto simp: rejection_defs split: sum.splits)

lemma faithful_open_long_limit:
  "faithful sdk cc (Write_action (Open_long_limit data)) (open_long_limit_try sdk cc data)"
  unfolding open_long_limit_try_def fetch_markets_def invalidate_positions_def
  by (cases cc; simp only: option.case simp_thms if_True if_False option.distinct;
      intro faithful_intros)
     (auto simp: rejection_defs split: sum.splits)

lemma faithful_open_short_market:
  "faithful sdk cc (Write_action (Open_short_market data)) (open_short_market_try sdk cc data)"
  unfolding open_short_market_try_def fetch_markets_def invalidate_positions_def
  by (cases cc; simp only: option.case simp_thms if_True if_False option.distinct;
      intro faithful_intros)
     (auto simp: rejection_defs split: sum.splits)

lemma faithful_open_short_limit:
  "faithful sdk cc (Write_action (Open_short_limit data)) (open_short_limit_try sdk cc data)"
  unfolding open_short_limit_try_def fetch_markets_def invalidate_positions_def
  by (cases cc; simp only: option.case simp_thms if_True if_False option.distinct;
      intro faithful_intros)
     (auto simp: rejection_defs split: sum.splits)

lemma faithful_close_position:
  "faithful sdk cc (Write_action (Close_position data)) (close_position_try sdk cc data)"
  unfolding close_position_try_def fetch_markets_def invalidate_positions_def
  by (cases cc; simp only: option.case simp_thms if_True if_False option.distinct;
      intro faithful_intros)
     (auto simp: rejection_defs split: sum.splits)

lemma faithful_swap_tokens:
  "faithful sdk cc (Write_action (Swap_tokens data)) (swap_tokens_try sdk cc data)"
  unfolding swap_tokens_try_def fetch_markets_def invalidate_positions_def
  by (cases cc; simp only: option.case simp_thms if_True if_False option.distinct;
      intro faithful_intros)
     (auto simp: rejection_defs split: sum.splits)

lemma faithful_set_take_profit:
  "faithful sdk cc (Write_action (Set_take_profit data)) (set_take_profit_try sdk cc data)"
  unfolding set_take_profit_try_def fetch_markets_def invalidate_positions_def
  by (cases cc; simp only: option.case simp_thms if_True if_False option.distinct;
      intro faithful_intros)
     (auto simp: rejection_defs split: sum.splits)

lemma faithful_set_stop_loss:
  "faithful sdk cc (Write_action (Set_stop_loss data)) (set_stop_loss_try sdk cc data)"
  unfolding set_stop_loss_try_def fetch_markets_def invalidate_positions_def
  by (cases cc; simp only: option.case simp_thms if_True if_False option.distinct;
      intro faithful_intros)
     (auto simp: rejection_defs split: sum.splits)

lemma faithful_read:
  "faithful sdk cc (Read_action a) (try_block sdk cc (Read_action a))"
  by (cases a; simp add: try_block_def read_defs; intro faithful_intros)
     (auto simp: rejection_defs split: sum.splits)

lemma faithful_try_block: "faithful sdk cc c (try_block sdk cc c)"
proof (cases c)
  case (Read_action a)
  then show ?thesis by (simp add: faithful_read)
next
  case (Write_action w)
  then show ?thesis
    by (cases w)
       (simp_all add: try_block_def faithful_cancel_orders faithful_open_long_market
          faithful_open_long_limit faithful_open_short_market faithful_open_short_limit
          faithful_close_position faithful_swap_tokens faithful_set_take_profit
          faithful_set_stop_loss)
qed

subsection \<open>The handler around its try block\<close>

lemma handler_try_catch:
  "createGmxActions sdk cc c =
     try_catch (try_block sdk cc c) (\<lambda>e. return (errorResult (failure_message c) e)) []"
proof (cases c)
  case (Read_action a)
  then show ?thesis
    by (cases a) (simp_all add: createGmxActions_def try_block_def failure_message_def
        read_handler_def get_btc_eth_markets_def get_daily_volumes_def get_tokens_data_def
        get_portfolio_balance_def get_positions_def get_orders_def get_trading_history_def
        get_synth_btc_predictions_def get_synth_eth_predictions_def
        get_btc_technical_analysis_def get_eth_technical_analysis_def)
next
  case (Write_action w)
  then show ?thesis
    by (simp add: createGmxActions_def write_handler_try_catch)
qed

lemma try_block_success:
  assumes "try_block sdk cc c [] = (t, Inr x)"
  shows "success x"
proof (cases c)
  case (Read_action a)
  with assms show ?thesis
    by (cases a; cases "queries sdk (query_of a)")
       (auto simp: try_block_def read_defs query_of_def bind_def await_def return_def
          readResult_def)
next
  case (Write_action w)
  from disciplined_try_block [of sdk w cc] obtain d r where
    "try_block sdk cc (Write_action w) [] = ([] @ d, r)"
    "outcome_ok sdk (write_event w) (cache_ivs cc w) (stops_between sdk w) (stops_after sdk w) d r"
    unfolding disciplined_def by blast
  with assms Write_action show ?thesis
    by (auto simp: outcome_ok_def)
qed

subsection \<open>The claims about the handlers\<close>

text \<open>
  C1 (the code departs from it). The claim: every handler that changes on-chain state
  hands its SDK call to the write queue. Run on a backend with one long position,
  \<^verbatim>\<open>close_position\<close> reads the markets and the positions from the cache, then calls
  \<^verbatim>\<open>sdk.orders.createDecreaseOrder\<close> itself: its trace has no
  \<^verbatim>\<open>enqueueWriteTransaction\<close>. \<^verbatim>\<open>set_stop_loss\<close>, run on the same backend, sends the
  same SDK method through the queue.
\<close>

theorem close_position_sends_write_directly:
  "createGmxActions sample_sdk (Some sample_reads) (Write_action (Close_position sample_close)) =
     ([Read ViaCache getMarketsInfo, Read ViaCache getPositions, SdkWrite createDecreaseOrder,
       invalidatePositions],
      Inr (writeResult ''Successfully fully closed long position'' (Some ''0xabc'')))
   \<and> fst (createGmxActions sample_sdk (Some sample_reads) (Write_action (Set_stop_loss sample_stop_loss))) =
     [Read ViaCache getMarketsInfo, Read ViaCache getPositionsInfo,
      enqueueWriteTransaction ''set_stop_loss'' createDecreaseOrder, invalidatePositions]"
  by (simp add: createGmxActions_def write_handler_def close_position_def set_stop_loss_def
      close_position_try_def set_stop_loss_try_def
      sample_defs monad_defs step_defs or_else_def truthy_def BigInt_def StringToBigInt_def
      trim_def is_space_def parse_radix_def digit_value_def)




text \<open>
  C9. Of the eleven read handlers, \<^verbatim>\<open>get_positions\<close> and \<^verbatim>\<open>get_orders\<close> make one call,
  to \<^verbatim>\<open>transactionQueue.enqueueReadAfterWrite\<close>, with their own name and their query
  function; each of the other nine makes one call, to its query function directly.
\<close>

theorem barrier_reads_are_positions_and_orders:
  "fst (createGmxActions sdk gmxDataCache (Read_action a)) =
     [if a = Get_positions \<or> a = Get_orders then enqueueReadAfterWrite (read_name a) (query_of a)
      else Query (query_of a)]"
  using read_trace [of sdk a "[]"] by (simp add: createGmxActions_def)

theorem barrier_reads_are_positions_and_orders_witness:
  "fst (createGmxActions sample_sdk None (Read_action Get_orders)) =
     [enqueueReadAfterWrite ''get_orders'' get_orders_str]
   \<and> fst (createGmxActions sample_sdk None (Read_action Get_portfolio_balance)) =
     [Query get_portfolio_balance_str]"
  using barrier_reads_are_positions_and_orders [of sample_sdk None Get_orders]
    barrier_reads_are_positions_and_orders [of sample_sdk None Get_portfolio_balance]
  by (simp add: read_name_def query_of_def)

text \<open>
  C10. Every handler is one \<^verbatim>\<open>try\<close> block with one \<^verbatim>\<open>catch\<close> block. For every
  backend, every input, with or without the data cache, each of the twenty handlers
  resolves, with a result object; its calls are those of its \<^verbatim>\<open>try\<close> block. If the
  \<^verbatim>\<open>try\<close> block throws, the result has \<^verbatim>\<open>success: false\<close>, as \<^verbatim>\<open>error\<close> the message of
  the thrown error (the thrown value itself when it is no \<^verbatim>\<open>Error\<close>), and as
  \<^verbatim>\<open>message\<close> the handler's own text. If the \<^verbatim>\<open>try\<close> block returns, the result is the
  one it returned, with \<^verbatim>\<open>success: true\<close>. And a call that rejects - a query, a read
  behind the barrier, a read through the cache, a write - is the last call of the
  handler, whose result then has \<^verbatim>\<open>success: false\<close> and as \<^verbatim>\<open>error\<close> the message of that
  rejection, with the prefix that the handler's inner \<^verbatim>\<open>catch\<close> puts before it where
  there is one.
\<close>

theorem handlers_never_reject:
  "\<exists>t r. createGmxActions sdk gmxDataCache c = (t, Inr r)
     \<and> t = fst (try_block sdk gmxDataCache c [])
     \<and> (\<forall>e. snd (try_block sdk gmxDataCache c []) = Inl e \<longrightarrow>
          r = \<lparr>success = False, error = Some (case e of JsError m \<Rightarrow> m | JsValue v \<Rightarrow> v),
               message = failure_message c, payload = None, transactionHash = None\<rparr>)
     \<and> (\<forall>x. snd (try_block sdk gmxDataCache c []) = Inr x \<longrightarrow> r = x \<and> success x)
     \<and> (\<forall>ev e. ev \<in> set t \<and> call_rejection sdk gmxDataCache ev = Some e \<longrightarrow>
          (\<exists>p. t = p @ [ev])
          \<and> (\<exists>e' \<in> set (rethrown c ev e).
                r = \<lparr>success = False,
                     error = Some (case e' of JsError m \<Rightarrow> m | JsValue v \<Rightarrow> v),
                     message = failure_message c, payload = None, transactionHash = None\<rparr>))"
proof -
  from faithful_try_block [of sdk gmxDataCache c] obtain d r0 where
    tb: "try_block sdk gmxDataCache c [] = (d, r0)"
    and ef: "ends_faithfully sdk gmxDataCache c d r0"
    unfolding faithful_def by (metis append_Nil)
  show ?thesis
  proof (cases r0)
    case (Inl e)
    let ?r = "\<lparr>success = False, error = Some (case e of JsError m \<Rightarrow> m | JsValue v \<Rightarrow> v),
               message = failure_message c, payload = None, transactionHash = None\<rparr>"
    have run: "createGmxActions sdk gmxDataCache c = (d, Inr ?r)"
      using tb Inl
      by (simp add: handler_try_catch try_catch_def return_def errorResult_def error_text_def)
    have rej: "(\<exists>p. d = p @ [ev])
          \<and> (\<exists>e' \<in> set (rethrown c ev e'').
                ?r = \<lparr>success = False,
                     error = Some (case e' of JsError m \<Rightarrow> m | JsValue v \<Rightarrow> v),
                     message = failure_message c, payload = None, transactionHash = None\<rparr>)"
      if "ev \<in> set d" "call_rejection sdk gmxDataCache ev = Some e''" for ev e''
    proof -
      from ef that obtain p e' where "d = p @ [ev]" "e' \<in> set (rethrown c ev e'')" "r0 = Inl e'"
        unfolding ends_faithfully_def by blast
      with Inl show ?thesis by auto
    qed
    from run tb Inl rej show ?thesis by auto
  next
    case (Inr x)
    have run: "createGmxActions sdk gmxDataCache c = (d, Inr x)"
      using tb Inr by (simp add: handler_try_catch try_catch_def)
    have s: "success x" using tb Inr try_block_success by blast
    have none: "call_rejection sdk gmxDataCache ev \<noteq> Some e" if "ev \<in> set d" for ev e
    proof
      assume "call_rejection sdk gmxDataCache ev = Some e"
      with ef that have "\<exists>e' \<in> set (rethrown c ev e). r0 = Inl e'"
        unfolding ends_faithfully_def by blast
      with Inr show False by simp
    qed
    from run tb Inr s none show ?thesis by auto
  qed
qed

text \<open>
  \<^verbatim>\<open>cancel_orders\<close> and \<^verbatim>\<open>set_stop_loss\<close> on a backend whose writes reject with
  \<^verbatim>\<open>nonce too low\<close>, and \<^verbatim>\<open>get_orders\<close> on a backend that answers.
\<close>

theorem handlers_never_reject_witness:
  "createGmxActions rejecting_sdk None (Write_action (Cancel_orders sample_cancel)) =
     ([enqueueWriteTransaction ''cancel_orders'' cancelOrders],
      Inr \<lparr>success = False, error = Some ''nonce too low'', message = ''Failed to cancel orders'',
           payload = None, transactionHash = None\<rparr>)
   \<and> call_rejection rejecting_sdk (Some sample_reads)
       (enqueueWriteTransaction ''set_stop_loss'' createDecreaseOrder) = Some (JsError ''nonce too low'')
   \<and> createGmxActions rejecting_sdk (Some sample_reads) (Write_action (Set_stop_loss sample_stop_loss)) =
     ([Read ViaCache getMarketsInfo, Read ViaCache getPositionsInfo,
       enqueueWriteTransaction ''set_stop_loss'' createDecreaseOrder],
      Inr \<lparr>success = False, error = Some ''Failed to create stop loss order: nonce too low'',
           message = ''Failed to set stop loss order'', payload = None, transactionHash = None\<rparr>)
   \<and> createGmxActions sample_sdk None (Read_action Get_orders) =
     ([enqueueReadAfterWrite ''get_orders'' get_orders_str],
      Inr \<lparr>success = True, error = None, message = ''data'', payload = Some ''data'',
           transactionHash = None\<rparr>)"
proof -
  note run_defs = createGmxActions_def write_handler_def read_handler_def cancel_orders_def
    cancel_orders_try_def set_stop_loss_def set_stop_loss_try_def get_orders_def get_orders_try_def
    sample_defs monad_defs step_defs truthy_def or_else_def
    BigInt_def StringToBigInt_def trim_def is_space_def parse_radix_def digit_value_def
    errorResult_def error_text_def readResult_def message_or_error_def
  have a: "createGmxActions rejecting_sdk None (Write_action (Cancel_orders sample_cancel)) =
     ([enqueueWriteTransaction ''cancel_orders'' cancelOrders],
      Inr \<lparr>success = False, error = Some ''nonce too low'', message = ''Failed to cancel orders'',
           payload = None, transactionHash = None\<rparr>)"
    by (simp add: run_defs)
  have b: "call_rejection rejecting_sdk (Some sample_reads)
       (enqueueWriteTransaction ''set_stop_loss'' createDecreaseOrder) = Some (JsError ''nonce too low'')"
    by (simp add: call_rejection_def rejection_def sample_defs)
  have c: "createGmxActions rejecting_sdk (Some sample_reads) (Write_action (Set_stop_loss sample_stop_loss)) =
     ([Read ViaCache getMarketsInfo, Read ViaCache getPositionsInfo,
       enqueueWriteTransaction ''set_stop_loss'' createDecreaseOrder],
      Inr \<lparr>success = False, error = Some ''Failed to create stop loss order: nonce too low'',
           message = ''Failed to set stop loss order'', payload = None, transactionHash = None\<rparr>)"
    by (simp add: run_defs)
  have d: "createGmxActions sample_sdk None (Read_action Get_orders) =
     ([enqueueReadAfterWrite ''get_orders'' get_orders_str],
      Inr \<lparr>success = True, error = None, message = ''data'', payload = Some ''data'',
           transactionHash = None\<rparr>)"
    by (simp add: run_defs)
  from handlers_never_reject [of rejecting_sdk "Some sample_reads" "Write_action (Set_stop_loss sample_stop_loss)"]
    a b c d
  show ?thesis by simp
qed

section \<open>Properties of the write transaction queue\<close>

lemma serial_Suc: "serial (Suc n) = serial n @ [WriteStarted n, WriteSettled n]"
  by (simp add: serial_def)

lemma serial_0 [simp]: "serial 0 = []"
  by (simp add: serial_def)

lemma filter_ReadStarted [simp]:
  "filter is_execution (map (\<lambda>(r, token). ReadStarted r) xs) = []"
  "filter is_enqueue (map (\<lambda>(r, token). ReadStarted r) xs) = []"
  by (induction xs) (auto simp: is_execution_def is_enqueue_def)

lemma q_inv_empty: "q_inv empty_queue"
  by (simp add: q_inv_def empty_queue_def started_count_def)

lemma q_inv_enqueueWrite: "q_inv q \<Longrightarrow> q_inv (q_enqueueWrite l q)"
  by (auto simp: q_inv_def q_enqueueWrite_def started_count_def is_execution_def is_enqueue_def
      split: option.splits)

lemma q_inv_take: "q_inv q \<Longrightarrow> q_inv (worker_takes_next q)"
proof (cases "in_flight q")
  case (Some running)
  then show "q_inv q \<Longrightarrow> ?thesis" by (simp add: worker_takes_next_def)
next
  case None
  assume inv: "q_inv q"
  show ?thesis
  proof (cases "fifo q")
    case Nil
    with None inv show ?thesis by (simp add: worker_takes_next_def)
  next
    case (Cons operation rest)
    let ?d = "length (settlements q)"
    from inv None Cons have "[?d..<next_seq q] = seq operation # map seq rest"
      by (simp add: q_inv_def started_count_def)
    then have s: "seq operation = ?d" and r: "map seq rest = [Suc ?d..<next_seq q]"
      and lt: "?d < next_seq q"
      by (auto simp: upt_eq_Cons_conv)
    from inv None Cons s r lt show ?thesis
      by (simp add: q_inv_def worker_takes_next_def started_count_def is_execution_def
          is_enqueue_def)
  qed
qed

lemma q_inv_settle: "q_inv q \<Longrightarrow> q_inv (task_settles result q)"
  by (cases "in_flight q")
     (auto simp: q_inv_def task_settles_def release_reads_def started_count_def serial_Suc
        is_execution_def is_enqueue_def)

lemma q_inv_read: "q_inv q \<Longrightarrow> q_inv (q_enqueueReadAfterWrite l q)"
  by (auto simp: q_inv_def q_enqueueReadAfterWrite_def started_count_def is_execution_def
      is_enqueue_def split: option.splits)

lemma q_inv_step: "q_inv q \<Longrightarrow> q_inv (q_step q i)"
  by (cases i) (simp_all add: q_inv_enqueueWrite q_inv_take q_inv_settle q_inv_read)



lemma before_old: "b \<in> set h \<Longrightarrow> before (h @ x) a b = before h a b"
  by (simp add: before_def takeWhile_append1)

lemma takeWhile_absent:
  "b \<notin> set h \<Longrightarrow> takeWhile (\<lambda>e. e \<noteq> b) (h @ x) = h @ takeWhile (\<lambda>e. e \<noteq> b) x"
  by (induction h) auto

lemma before_new:
  "b \<notin> set h \<Longrightarrow> before (h @ x) a b = (b \<in> set x \<and> (a \<in> set h \<or> a \<in> set (takeWhile (\<lambda>e. e \<noteq> b) x)))"
  by (auto simp: before_def takeWhile_absent)

lemma settled_iff: "q_inv q \<Longrightarrow> settled q n = (n < length (settlements q))"
  by (simp add: q_inv_def settled_def)

lemma drained_iff: "q_inv q \<Longrightarrow> drained_through q token = (token < length (settlements q))"
  by (auto simp: drained_through_def settled_iff list_all_iff)

lemma r_inv_empty: "r_inv empty_queue"
  by (simp add: r_inv_def empty_queue_def)

lemma r_inv_enqueueWrite: "q_inv q \<Longrightarrow> r_inv q \<Longrightarrow> r_inv (q_enqueueWrite l q)"
  unfolding r_inv_def q_enqueueWrite_def
  by (simp add: before_old) (auto simp: before_old)

lemma r_inv_take: "q_inv q \<Longrightarrow> r_inv q \<Longrightarrow> r_inv (worker_takes_next q)"
  unfolding r_inv_def worker_takes_next_def
  by (cases "in_flight q"; cases "fifo q") (simp_all add: before_old, auto simp: before_old)

lemma queue_nonempty_unsettled:
  assumes "q_inv q" and "\<not> (fifo q = [] \<and> in_flight q = None)"
  shows "length (settlements q) < next_seq q"
proof (cases "in_flight q")
  case (Some running)
  with assms(1) show ?thesis by (simp add: q_inv_def started_count_def)
next
  case None
  with assms have "fifo q \<noteq> []" by simp
  then have "map seq (fifo q) \<noteq> []" by simp
  with assms(1) None show ?thesis by (simp add: q_inv_def started_count_def)
qed

lemma queue_empty_settled:
  assumes "q_inv q" and "fifo q = []" and "in_flight q = None"
  shows "length (settlements q) = next_seq q"
proof -
  from assms(1) have m: "map seq (fifo q) = [started_count q..<next_seq q]"
    and le: "started_count q \<le> next_seq q"
    by (simp_all add: q_inv_def)
  from m [symmetric] assms(2) have "next_seq q \<le> started_count q" by auto
  with le assms(3) show ?thesis by (simp add: started_count_def)
qed

lemma r_inv_read: 
  assumes q: "q_inv q" and r: "r_inv q"
  shows "r_inv (q_enqueueReadAfterWrite l q)"
proof (cases "barrier_token q")
  case None
  then have e: "fifo q = []" "in_flight q = None"
    by (auto simp: barrier_token_def split: if_splits)
  from queue_empty_settled [OF q e] have d: "length (settlements q) = next_seq q" .
  have fresh: "ReadEnqueued (next_read q) \<notin> set (history q)" "ReadStarted (next_read q) \<notin> set (history q)"
    using r by (auto simp: r_inv_def)
  show ?thesis
    using r None d fresh
    unfolding r_inv_def q_enqueueReadAfterWrite_def
    apply (simp add: before_old)
    apply (intro conjI allI impI)
        apply (auto simp: before_old before_new less_Suc_eq)
    done
next
  case (Some token)
  then have ne: "\<not> (fifo q = [] \<and> in_flight q = None)" and t: "token = next_seq q - 1"
    by (auto simp: barrier_token_def split: if_splits)
  from queue_nonempty_unsettled [OF q ne] have d: "length (settlements q) < next_seq q" .
  have fresh: "ReadEnqueued (next_read q) \<notin> set (history q)" "ReadStarted (next_read q) \<notin> set (history q)"
    using r by (auto simp: r_inv_def)
  show ?thesis
    using r Some d t fresh
    unfolding r_inv_def q_enqueueReadAfterWrite_def
    apply (simp add: before_old)
    apply (intro conjI allI impI)
          apply (auto simp: before_old before_new less_Suc_eq)
    done
qed

lemma RS_in_image:
  "ReadStarted r \<in> (\<lambda>(r, token). ReadStarted r) ` S = (r \<in> fst ` S)"
  by force

lemma RS_in_released:
  "ReadStarted r \<in> set (map (\<lambda>(r, token). ReadStarted r) ws) = (r \<in> fst ` set ws)"
  by (simp add: RS_in_image)

lemma r_invI:
  assumes "\<And>r. ReadEnqueued r \<in> set (history q) \<longleftrightarrow> r < next_read q"
    and "\<And>r. ReadStarted r \<in> set (history q) \<Longrightarrow> r < next_read q"
    and "distinct (map fst (waiting_reads q))"
    and "\<And>n. WriteSettled n \<in> set (history q) \<longleftrightarrow> n < length (settlements q)"
    and "\<And>n. WriteEnqueued n \<in> set (history q) \<longleftrightarrow> n < next_seq q"
    and "\<And>r token. (r, token) \<in> set (waiting_reads q) \<Longrightarrow>
            r < next_read q \<and> ReadStarted r \<notin> set (history q)
            \<and> (\<forall>n. before (history q) (WriteEnqueued n) (ReadEnqueued r) \<longleftrightarrow> n \<le> token)
            \<and> length (settlements q) \<le> token"
    and "\<And>r. r < next_read q \<Longrightarrow> r \<notin> fst ` set (waiting_reads q) \<Longrightarrow>
            ReadStarted r \<in> set (history q)
            \<and> (\<forall>n. before (history q) (WriteEnqueued n) (ReadEnqueued r)
                  \<longrightarrow> before (history q) (WriteSettled n) (ReadStarted r))"
  shows "r_inv q"
  unfolding r_inv_def using assms by blast

lemma r_inv_settle:
  assumes q: "q_inv q" and r: "r_inv q"
  shows "r_inv (task_settles result q)"
proof (cases "in_flight q")
  case None
  with r show ?thesis by (simp add: task_settles_def)
next
  case (Some running)
  let ?d = "length (settlements q)"
  let ?h = "history q"
  let ?ws = "waiting_reads q"
  from q Some have sq: "seq running = ?d" by (simp add: q_inv_def)
  let ?q1 = "q\<lparr>in_flight := None, settlements := settlements q @ [(seq running, result)],
               history := ?h @ [WriteSettled (seq running)]\<rparr>"
  have dr: "\<And>token. drained_through ?q1 token = (token \<le> ?d)"
    using q sq by (auto simp: drained_through_def settled_def list_all_iff q_inv_def)
  let ?ready = "filter (\<lambda>(r, token). token \<le> ?d) ?ws"
  let ?blocked = "filter (\<lambda>(r, token). \<not> token \<le> ?d) ?ws"
  let ?h' = "(?h @ [WriteSettled ?d]) @ map (\<lambda>(r, token). ReadStarted r) ?ready"
  have res: "task_settles result q =
      q\<lparr>in_flight := None, settlements := settlements q @ [(?d, result)],
        waiting_reads := ?blocked, history := ?h'\<rparr>"
    using Some sq dr by (simp add: task_settles_def release_reads_def)
  from r have i1: "\<And>r. ReadEnqueued r \<in> set ?h \<longleftrightarrow> r < next_read q"
    and i2: "\<And>r. ReadStarted r \<in> set ?h \<Longrightarrow> r < next_read q"
    and i3: "distinct (map fst ?ws)"
    and i4: "\<And>n. WriteSettled n \<in> set ?h \<longleftrightarrow> n < ?d"
    and i5: "\<And>n. WriteEnqueued n \<in> set ?h \<longleftrightarrow> n < next_seq q"
    and i6: "\<And>r token. (r, token) \<in> set ?ws \<Longrightarrow>
            r < next_read q \<and> ReadStarted r \<notin> set ?h
            \<and> (\<forall>n. before ?h (WriteEnqueued n) (ReadEnqueued r) \<longleftrightarrow> n \<le> token)
            \<and> ?d \<le> token"
    and i7: "\<And>r. r < next_read q \<Longrightarrow> r \<notin> fst ` set ?ws \<Longrightarrow>
            ReadStarted r \<in> set ?h
            \<and> (\<forall>n. before ?h (WriteEnqueued n) (ReadEnqueued r)
                  \<longrightarrow> before ?h (WriteSettled n) (ReadStarted r))"
    unfolding r_inv_def by (simp_all, blast+)
  have c1: "\<And>r. ReadEnqueued r \<in> set ?h' \<longleftrightarrow> r < next_read q"
    using i1 by auto
  have c2: "\<And>r. ReadStarted r \<in> set ?h' \<Longrightarrow> r < next_read q"
  proof -
    fix r
    assume "ReadStarted r \<in> set ?h'"
    then have "ReadStarted r \<in> set ?h \<or> r \<in> fst ` set ?ready"
      by (simp add: RS_in_image del: set_filter)
    then show "r < next_read q"
      using i2 i6 by force
  qed
  have c3: "distinct (map fst ?blocked)"
    using i3 by (simp add: distinct_map_filter)
  have c4: "\<And>n. WriteSettled n \<in> set ?h' \<longleftrightarrow> n < Suc ?d"
    using i4 by (auto simp: less_Suc_eq)
  have c5: "\<And>n. WriteEnqueued n \<in> set ?h' \<longleftrightarrow> n < next_seq q"
    using i5 by auto
  have c6: "\<And>r token. (r, token) \<in> set ?blocked \<Longrightarrow>
            r < next_read q \<and> ReadStarted r \<notin> set ?h'
            \<and> (\<forall>n. before ?h' (WriteEnqueued n) (ReadEnqueued r) \<longleftrightarrow> n \<le> token)
            \<and> Suc ?d \<le> token"
  proof -
    fix r token
    assume b: "(r, token) \<in> set ?blocked"
    then have w: "(r, token) \<in> set ?ws" and t: "\<not> token \<le> ?d" by auto
    from i6 [OF w] have a: "r < next_read q" "ReadStarted r \<notin> set ?h"
      "\<forall>n. before ?h (WriteEnqueued n) (ReadEnqueued r) \<longleftrightarrow> n \<le> token" by auto
    have "r \<notin> fst ` set ?ready"
    proof
      assume "r \<in> fst ` set ?ready"
      then obtain token' where w': "(r, token') \<in> set ?ws" and t': "token' \<le> ?d" by auto
      from eq_key_imp_eq_value [OF i3 w w'] t t' show False by simp
    qed
    with a(2) have "ReadStarted r \<notin> set ?h'" by (simp add: RS_in_image del: set_filter)
    moreover from a(1) i1 have "ReadEnqueued r \<in> set ?h" by simp
    then have "\<And>n. before ?h' (WriteEnqueued n) (ReadEnqueued r)
        = before ?h (WriteEnqueued n) (ReadEnqueued r)"
      by (simp add: before_old)
    ultimately show "r < next_read q \<and> ReadStarted r \<notin> set ?h'
            \<and> (\<forall>n. before ?h' (WriteEnqueued n) (ReadEnqueued r) \<longleftrightarrow> n \<le> token)
            \<and> Suc ?d \<le> token"
      using a t by simp
  qed
  have c7: "\<And>r. r < next_read q \<Longrightarrow> r \<notin> fst ` set ?blocked \<Longrightarrow>
            ReadStarted r \<in> set ?h'
            \<and> (\<forall>n. before ?h' (WriteEnqueued n) (ReadEnqueued r)
                  \<longrightarrow> before ?h' (WriteSettled n) (ReadStarted r))"
  proof -
    fix r
    assume lt: "r < next_read q" and nb: "r \<notin> fst ` set ?blocked"
    from lt i1 have re: "ReadEnqueued r \<in> set ?h" by simp
    then have bo: "\<And>n. before ?h' (WriteEnqueued n) (ReadEnqueued r)
        = before ?h (WriteEnqueued n) (ReadEnqueued r)"
      by (simp add: before_old)
    show "ReadStarted r \<in> set ?h'
            \<and> (\<forall>n. before ?h' (WriteEnqueued n) (ReadEnqueued r)
                  \<longrightarrow> before ?h' (WriteSettled n) (ReadStarted r))"
    proof (cases "r \<in> fst ` set ?ws")
      case False
      from i7 [OF lt False] have s: "ReadStarted r \<in> set ?h"
        and b: "\<forall>n. before ?h (WriteEnqueued n) (ReadEnqueued r)
                  \<longrightarrow> before ?h (WriteSettled n) (ReadStarted r)" by auto
      from s have "\<And>n. before ?h' (WriteSettled n) (ReadStarted r)
          = before ?h (WriteSettled n) (ReadStarted r)"
        by (simp add: before_old)
      with s b bo show ?thesis by simp
    next
      case True
      then obtain token where w: "(r, token) \<in> set ?ws" by auto
      with nb have t: "token \<le> ?d" by force
      from i6 [OF w] have a: "ReadStarted r \<notin> set ?h"
        "\<forall>n. before ?h (WriteEnqueued n) (ReadEnqueued r) \<longleftrightarrow> n \<le> token" by auto
      from w t have rdy: "r \<in> fst ` set ?ready" by force
      then have s: "ReadStarted r \<in> set ?h'" by (simp add: RS_in_image del: set_filter)
      from a(1) have ns: "ReadStarted r \<notin> set (?h @ [WriteSettled ?d])" by simp
      have "\<And>n. n \<le> token \<Longrightarrow> before ?h' (WriteSettled n) (ReadStarted r)"
      proof -
        fix n assume "n \<le> token"
        with t have "n < ?d \<or> n = ?d" by auto
        with i4 have "WriteSettled n \<in> set (?h @ [WriteSettled ?d])" by auto
        with rdy show "before ?h' (WriteSettled n) (ReadStarted r)"
          unfolding before_new [OF ns] by (simp add: RS_in_image del: set_filter)
      qed
      with s bo a(2) show ?thesis by simp
    qed
  qed
  have f: "history (task_settles result q) = ?h'"
    "waiting_reads (task_settles result q) = ?blocked"
    "next_read (task_settles result q) = next_read q"
    "length (settlements (task_settles result q)) = Suc ?d"
    "next_seq (task_settles result q) = next_seq q"
    by (simp_all add: res)
  show ?thesis
  proof (rule r_invI; unfold f)
    show "\<And>r. ReadEnqueued r \<in> set ?h' \<longleftrightarrow> r < next_read q" by (rule c1)
    show "\<And>r. ReadStarted r \<in> set ?h' \<Longrightarrow> r < next_read q" by (rule c2)
    show "distinct (map fst ?blocked)" by (rule c3)
    show "\<And>n. WriteSettled n \<in> set ?h' \<longleftrightarrow> n < Suc ?d" by (rule c4)
    show "\<And>n. WriteEnqueued n \<in> set ?h' \<longleftrightarrow> n < next_seq q" by (rule c5)
    show "\<And>r token. (r, token) \<in> set ?blocked \<Longrightarrow>
            r < next_read q \<and> ReadStarted r \<notin> set ?h'
            \<and> (\<forall>n. before ?h' (WriteEnqueued n) (ReadEnqueued r) \<longleftrightarrow> n \<le> token)
            \<and> Suc ?d \<le> token" by (rule c6)
    show "\<And>r. r < next_read q \<Longrightarrow> r \<notin> fst ` set ?blocked \<Longrightarrow>
            ReadStarted r \<in> set ?h'
            \<and> (\<forall>n. before ?h' (WriteEnqueued n) (ReadEnqueued r)
                  \<longrightarrow> before ?h' (WriteSettled n) (ReadStarted r))" by (rule c7)
  qed
qed

lemma r_inv_step: "q_inv q \<Longrightarrow> r_inv q \<Longrightarrow> r_inv (q_step q i)"
  by (cases i) (simp_all add: r_inv_enqueueWrite r_inv_take r_inv_settle r_inv_read)

lemma r_inv_foldl: "q_inv q \<Longrightarrow> r_inv q \<Longrightarrow> r_inv (foldl q_step q inputs)"
  by (induction inputs arbitrary: q) (simp_all add: r_inv_step q_inv_step)

lemma r_inv_run: "r_inv (q_run inputs)"
  by (simp add: q_run_def r_inv_foldl q_inv_empty r_inv_empty)

lemma before_member: "before h a b \<Longrightarrow> a \<in> set h"
  by (auto simp: before_def dest: set_takeWhileD)

text \<open>
  C3. A read handed to \<^verbatim>\<open>enqueueReadAfterWrite\<close> starts only after every write enqueued
  before the call has settled, and writes enqueued after the call do not delay it. In
  every run of the queue and for every read \<open>r\<close> handed to the barrier: the read has
  started exactly when every write enqueued before its call has settled, with success
  or with failure. Writes enqueued after the call do not occur in that condition. And
  when the read has started, each of those writes had settled before the read started.
\<close>

theorem read_after_write_barrier:
  assumes "ReadEnqueued r \<in> set (history (q_run inputs))"
  shows "(ReadStarted r \<in> set (history (q_run inputs))) =
           (\<forall>n. before (history (q_run inputs)) (WriteEnqueued n) (ReadEnqueued r)
                \<longrightarrow> WriteSettled n \<in> set (history (q_run inputs)))
         \<and> (ReadStarted r \<in> set (history (q_run inputs)) \<longrightarrow>
             (\<forall>n. before (history (q_run inputs)) (WriteEnqueued n) (ReadEnqueued r)
                \<longrightarrow> before (history (q_run inputs)) (WriteSettled n) (ReadStarted r)))"
proof -
  let ?q = "q_run inputs"
  let ?h = "history ?q"
  have inv: "r_inv ?q" by (rule r_inv_run)
  from inv assms have lt: "r < next_read ?q" by (simp add: r_inv_def)
  show ?thesis
  proof (cases "r \<in> fst ` set (waiting_reads ?q)")
    case True
    then obtain token where w: "(r, token) \<in> set (waiting_reads ?q)" by auto
    with inv have ns: "ReadStarted r \<notin> set ?h"
      and b: "before ?h (WriteEnqueued token) (ReadEnqueued r)"
      and d: "length (settlements ?q) \<le> token"
      unfolding r_inv_def by auto
    from inv d have "WriteSettled token \<notin> set ?h"
      unfolding r_inv_def by auto
    with ns b show ?thesis by blast
  next
    case False
    with inv lt have s: "ReadStarted r \<in> set ?h"
      and b: "\<forall>n. before ?h (WriteEnqueued n) (ReadEnqueued r)
                  \<longrightarrow> before ?h (WriteSettled n) (ReadStarted r)"
      unfolding r_inv_def by auto
    from b have "\<forall>n. before ?h (WriteEnqueued n) (ReadEnqueued r) \<longrightarrow> WriteSettled n \<in> set ?h"
      by (blast dest: before_member)
    with s b show ?thesis by blast
  qed
qed

text \<open>
  A read is handed to the barrier after write 0 and before write 1. It starts when write
  0 has settled, while write 1 has not even started.
\<close>

theorem read_after_write_barrier_witness:
  "ReadEnqueued 0 \<in> set (history (q_run
       [Write ''W'', ReadAfterWrite ''get_positions'', Write ''X'', Take, Settle (Inr ''ok'')]))
   \<and> history (q_run
       [Write ''W'', ReadAfterWrite ''get_positions'', Write ''X'', Take, Settle (Inr ''ok'')])
       = [WriteEnqueued 0, ReadEnqueued 0, WriteEnqueued 1, WriteStarted 0, WriteSettled 0,
          ReadStarted 0]
   \<and> before (history (q_run
       [Write ''W'', ReadAfterWrite ''get_positions'', Write ''X'', Take, Settle (Inr ''ok'')]))
       (WriteSettled 0) (ReadStarted 0)
   \<and> ReadStarted 0 \<notin> set (history (q_run
       [Write ''W'', ReadAfterWrite ''get_positions'', Write ''X'', Take]))"
  using read_after_write_barrier
    [where r = 0
       and inputs = "[Write ''W'', ReadAfterWrite ''get_positions'', Write ''X'', Take,
                      Settle (Inr ''ok'')]"]
  by (simp add: q_run_def q_enqueueWrite_def worker_takes_next_def task_settles_def
      release_reads_def empty_queue_def q_enqueueReadAfterWrite_def barrier_token_def
      drained_through_def settled_def before_def)













lemma settlements_enqueueWrite [simp]: "settlements (q_enqueueWrite l q) = settlements q"
  by (simp add: q_enqueueWrite_def)

lemma settlements_take [simp]: "settlements (worker_takes_next q) = settlements q"
  by (cases "in_flight q"; cases "fifo q") (simp_all add: worker_takes_next_def)

lemma settlements_read [simp]: "settlements (q_enqueueReadAfterWrite l q) = settlements q"
  by (cases "barrier_token q") (simp_all add: q_enqueueReadAfterWrite_def)









section \<open>Properties of the data cache\<close>

lemma find_SomeD: "find P xs = Some x \<Longrightarrow> x \<in> set xs \<and> P x"
  by (induction xs) (auto split: if_splits)

lemma find_NoneD: "find P xs = None \<Longrightarrow> x \<in> set xs \<Longrightarrow> \<not> P x"
  by (induction xs) (auto split: if_splits)


lemma c_inv_empty: "c_inv empty_cache"
  by (simp add: c_inv_def empty_cache_def)

lemma c_inv_getOrCompute:
  assumes "c_inv c"
  shows "c_inv (getOrCompute k t now c)"
proof (cases "fresh_value c k now")
  case (Some v)
  with assms show ?thesis
    by (auto simp: c_inv_def getOrCompute_def)
next
  case None
  show ?thesis
  proof (cases "in_flight_for c k")
    case (Some p)
    then have "p \<in> set (computing c)"
      by (auto simp: in_flight_for_def dest: find_SomeD)
    with assms None Some show ?thesis
      by (auto simp: c_inv_def getOrCompute_def)
  next
    case n: None
    then have nf: "\<And>q. q \<in> set (computing c) \<Longrightarrow>
        \<not> (compute_key q = k \<and> compute_generation q = generation c k)"
      unfolding in_flight_for_def by (rule find_NoneD)
    let ?new = "\<lparr>compute_id = length (computes c), compute_key = k,
                  compute_generation = generation c k, compute_ttl = t\<rparr>"
    have g: "getOrCompute k t now c =
        c\<lparr>calls := Suc (calls c), computes := computes c @ [k],
          computing := computing c @ [?new],
          awaiting := awaiting c @ [(calls c, length (computes c))]\<rparr>"
      using None n by (simp add: getOrCompute_def)
    from assms have 1: "\<forall>p \<in> set (computing c). compute_id p < length (computes c)"
      and 2: "distinct (map compute_id (computing c))"
      and 3: "\<forall>p \<in> set (computing c). \<forall>q \<in> set (computing c).
            compute_key p = compute_key q
            \<and> compute_generation p = generation c (compute_key p)
            \<and> compute_generation q = generation c (compute_key q) \<longrightarrow> p = q"
      and 4: "\<forall>p \<in> set (computing c). compute_generation p \<le> generation c (compute_key p)"
      and 5: "\<forall>(a, i) \<in> set (awaiting c). a < calls c \<and> i < length (computes c)"
      by (simp_all add: c_inv_def)
    from 1 have fresh_id: "length (computes c) \<notin> compute_id ` set (computing c)" by auto
    show ?thesis
      unfolding g c_inv_def
      using 1 2 3 4 5 nf fresh_id
      by (auto simp: less_Suc_eq)
  qed
qed

lemma c_inv_deliver: "c_inv c \<Longrightarrow> c_inv (deliver i outcome c)"
  by (auto simp: c_inv_def deliver_def distinct_map_filter)

lemma c_inv_entries: "c_inv c \<Longrightarrow> c_inv (c\<lparr>entries := e\<rparr>)"
  by (simp add: c_inv_def)

lemma c_inv_compute_settles: "c_inv c \<Longrightarrow> c_inv (compute_settles i outcome now c)"
  by (simp add: compute_settles_def c_inv_deliver c_inv_entries split: option.splits sum.splits)

lemma c_inv_invalidate:
  assumes "c_inv c"
  shows "c_inv (invalidate tag c)"
proof -
  from assms have 4: "\<forall>p \<in> set (computing c). compute_generation p \<le> generation c (compute_key p)"
    by (simp add: c_inv_def)
  then have "\<And>p. p \<in> set (computing c) \<Longrightarrow> compute_key p \<in> set tag \<Longrightarrow>
      compute_generation p \<noteq> Suc (generation c (compute_key p))"
    by fastforce
  with assms show ?thesis
    unfolding c_inv_def invalidate_def
    by (auto simp: le_Suc_eq)
qed

lemma c_inv_step: "c_inv c \<Longrightarrow> c_inv (c_step c i)"
  by (cases i) (simp_all add: c_inv_getOrCompute c_inv_compute_settles c_inv_invalidate)

lemma c_inv_foldl: "c_inv c \<Longrightarrow> c_inv (foldl c_step c inputs)"
  by (induction inputs arbitrary: c) (simp_all add: c_inv_step)

lemma c_inv_run: "c_inv (c_run inputs)"
  by (simp add: c_run_def c_inv_foldl c_inv_empty)

























lemma superseded_getOrCompute:
  assumes "superseded i k n0 c" and "n0 \<le> calls c"
  shows "superseded i k n0 (getOrCompute k' t now c)"
proof (cases "fresh_value c k' now")
  case (Some v)
  with assms show ?thesis by (simp add: superseded_def getOrCompute_def)
next
  case None
  show ?thesis
  proof (cases "in_flight_for c k'")
    case (Some q)
    then have q: "q \<in> set (computing c)" "compute_key q = k'"
      "compute_generation q = generation c k'"
      by (auto simp: in_flight_for_def dest: find_SomeD)
    with assms(1) have "compute_id q \<noteq> i"
      by (auto simp: superseded_def)
    with assms None Some show ?thesis
      by (auto simp: superseded_def getOrCompute_def)
  next
    case n: None
    with assms None show ?thesis
      by (auto simp: superseded_def getOrCompute_def)
  qed
qed

lemma superseded_deliver: "superseded i k n0 c \<Longrightarrow> superseded i k n0 (deliver j outcome c)"
  by (auto simp: superseded_def deliver_def)

lemma superseded_entries: "superseded i k n0 c \<Longrightarrow> superseded i k n0 (c\<lparr>entries := e\<rparr>)"
  by (simp add: superseded_def)

lemma superseded_compute_settles:
  "superseded i k n0 c \<Longrightarrow> superseded i k n0 (compute_settles j outcome now c)"
  by (simp add: compute_settles_def superseded_deliver superseded_entries
      split: option.splits sum.splits)

lemma superseded_invalidate: "superseded i k n0 c \<Longrightarrow> superseded i k n0 (invalidate tag c)"
  by (auto simp: superseded_def invalidate_def less_Suc_eq)

lemma calls_mono_step: "calls c \<le> calls (c_step c x)"
  by (cases x)
     (auto simp: getOrCompute_def compute_settles_def deliver_def invalidate_def
        split: option.splits sum.splits)

lemma superseded_step:
  "superseded i k n0 c \<Longrightarrow> n0 \<le> calls c \<Longrightarrow> superseded i k n0 (c_step c x)"
  by (cases x)
     (simp_all add: superseded_getOrCompute superseded_compute_settles superseded_invalidate)

lemma superseded_foldl:
  "superseded i k n0 c \<Longrightarrow> n0 \<le> calls c \<Longrightarrow> superseded i k n0 (foldl c_step c later)"
proof (induction later arbitrary: c)
  case Nil
  then show ?case by simp
next
  case (Cons x later)
  from Cons.prems have "superseded i k n0 (c_step c x)" by (rule superseded_step)
  moreover from Cons.prems(2) calls_mono_step [of c x] have "n0 \<le> calls (c_step c x)" by simp
  ultimately show ?case using Cons.IH by simp
qed

lemma superseded_discarded:
  assumes "superseded i k n0 c"
  shows "entries (compute_settles i outcome now c) = entries c"
proof (cases "find (\<lambda>p. compute_id p = i) (computing c)")
  case None
  then show ?thesis by (simp add: compute_settles_def)
next
  case (Some q)
  then have "q \<in> set (computing c)" "compute_id q = i" by (auto dest: find_SomeD)
  with assms have "compute_generation q \<noteq> generation c (compute_key q)"
    by (auto simp: superseded_def)
  with Some show ?thesis
    by (simp add: compute_settles_def deliver_def split: sum.splits)
qed

text \<open>
  C6. After \<^verbatim>\<open>invalidate\<close> the next call recomputes, and a superseded compute is discarded.
  After any run of the cache, for every key \<open>k\<close> that the tag matches: \<^verbatim>\<open>invalidate\<close>
  increments the generation counter of \<open>k\<close>, and at once the key has no fresh entry
  whatever the time; the next \<^verbatim>\<open>getOrCompute\<close> for \<open>k\<close> invokes the compute function
  anew and awaits that invocation, also when computes for \<open>k\<close> were in flight at
  the invalidation; and for every compute for \<open>k\<close> that was in flight at the
  invalidation, whatever happens later: when it settles, the entries stay as they
  were, so its value is not stored and the entry stays stale, and only calls made
  before the invalidation await it, so no later call returns its value.
\<close>

theorem invalidate_forces_recompute:
  assumes "k \<in> set tag"
  shows "generation (c_run (inputs @ [Invalidate tag])) k = Suc (generation (c_run inputs) k)
    \<and> fresh_value (c_run (inputs @ [Invalidate tag])) k now = None
    \<and> computes (c_run (inputs @ [Invalidate tag, GetOrCompute k t now]))
        = computes (c_run inputs) @ [k]
    \<and> awaiting (c_run (inputs @ [Invalidate tag, GetOrCompute k t now]))
        = awaiting (c_run inputs) @ [(calls (c_run inputs), length (computes (c_run inputs)))]
    \<and> (\<forall>p \<in> set (computing (c_run inputs)). compute_key p = k \<longrightarrow>
          entries (c_run (inputs @ Invalidate tag # later @ [ComputeSettles (compute_id p) outcome now']))
            = entries (c_run (inputs @ Invalidate tag # later))
          \<and> (\<forall>(a, j) \<in> set (awaiting (c_run (inputs @ Invalidate tag # later))).
                j = compute_id p \<longrightarrow> a < calls (c_run inputs)))"
proof -
  let ?c = "c_run inputs"
  let ?c1 = "invalidate tag ?c"
  have inv: "c_inv ?c" by (rule c_inv_run)
  have r1: "c_run (inputs @ [Invalidate tag]) = ?c1" by (simp add: c_run_def)
  have 1: "generation ?c1 k = Suc (generation ?c k)"
    using assms by (simp add: invalidate_def)
  have 2: "fresh_value ?c1 k now = None"
    using assms by (simp add: fresh_value_def invalidate_def fresh_def split: option.splits)
  have nf: "in_flight_for ?c1 k = None"
  proof -
    have "\<And>q. q \<in> set (computing ?c) \<Longrightarrow> compute_generation q \<noteq> Suc (generation ?c k) \<or> compute_key q \<noteq> k"
      using inv by (fastforce simp: c_inv_def)
    then show ?thesis
      using assms by (auto simp: in_flight_for_def invalidate_def find_None_iff)
  qed
  have r2: "c_run (inputs @ [Invalidate tag, GetOrCompute k t now]) = getOrCompute k t now ?c1"
    by (simp add: c_run_def)
  have g: "getOrCompute k t now ?c1 =
      ?c1\<lparr>calls := Suc (calls ?c1), computes := computes ?c1 @ [k],
          computing := computing ?c1
             @ [\<lparr>compute_id = length (computes ?c1), compute_key = k,
                 compute_generation = generation ?c1 k, compute_ttl = t\<rparr>],
          awaiting := awaiting ?c1 @ [(calls ?c1, length (computes ?c1))]\<rparr>"
    using 2 nf by (simp add: getOrCompute_def)
  have 3: "computes (getOrCompute k t now ?c1) = computes ?c @ [k]"
    unfolding g by (simp add: invalidate_def)
  have 4: "awaiting (getOrCompute k t now ?c1) = awaiting ?c @ [(calls ?c, length (computes ?c))]"
    unfolding g by (simp add: invalidate_def)
  have 5: "entries (c_run (inputs @ Invalidate tag # later @ [ComputeSettles (compute_id p) outcome now']))
            = entries (c_run (inputs @ Invalidate tag # later))
          \<and> (\<forall>(a, j) \<in> set (awaiting (c_run (inputs @ Invalidate tag # later))).
                j = compute_id p \<longrightarrow> a < calls ?c)"
    if p: "p \<in> set (computing ?c)" and pk: "compute_key p = k" for p
  proof -
    from inv have d: "distinct (map compute_id (computing ?c))"
      and le: "\<forall>q \<in> set (computing ?c). compute_generation q \<le> generation ?c (compute_key q)"
      and aw: "\<forall>(a, j) \<in> set (awaiting ?c). a < calls ?c \<and> j < length (computes ?c)"
      and id: "\<forall>q \<in> set (computing ?c). compute_id q < length (computes ?c)"
      by (simp_all add: c_inv_def)
    have same: "\<And>q. q \<in> set (computing ?c) \<Longrightarrow> compute_id q = compute_id p \<Longrightarrow> q = p"
      using d p by (meson distinct_map inj_onD)
    have s1: "superseded (compute_id p) k (calls ?c) ?c1"
      unfolding superseded_def
    proof (intro conjI ballI impI)
      fix q assume "q \<in> set (computing ?c1)" "compute_id q = compute_id p"
      then have "q = p" using same by (simp add: invalidate_def)
      with p pk le assms show "compute_key q = k" "compute_generation q < generation ?c1 k"
        by (auto simp: invalidate_def less_Suc_eq_le)
    next
      fix x assume "x \<in> set (awaiting ?c1)"
      with aw show "case x of (a, j) \<Rightarrow> j = compute_id p \<longrightarrow> a < calls ?c"
        by (auto simp: invalidate_def)
    next
      from id p show "compute_id p < length (computes ?c1)" by (simp add: invalidate_def)
    qed
    have c1: "calls ?c \<le> calls ?c1" by (simp add: invalidate_def)
    let ?c2 = "foldl c_step ?c1 later"
    from superseded_foldl [OF s1 c1] have s2: "superseded (compute_id p) k (calls ?c) ?c2" .
    have r3: "c_run (inputs @ Invalidate tag # later) = ?c2" by (simp add: c_run_def)
    have r4: "c_run (inputs @ Invalidate tag # later @ [ComputeSettles (compute_id p) outcome now'])
        = compute_settles (compute_id p) outcome now' ?c2"
      by (simp add: c_run_def)
    from s2 have "\<forall>(a, j) \<in> set (awaiting ?c2). j = compute_id p \<longrightarrow> a < calls ?c"
      by (simp add: superseded_def)
    with superseded_discarded [OF s2] show ?thesis
      unfolding r3 r4 by simp
  qed
  from 1 2 3 4 5 show ?thesis
    unfolding r1 r2 by blast
qed

text \<open>
  The scenario of the specification: a compute started at 1900 is in flight when
  \<^verbatim>\<open>invalidate\<close> fires at 2000; it resolves to \<open>V_old\<close> at 2500; the call at 2600 starts
  a second compute and does not get \<open>V_old\<close>.
\<close>

theorem invalidate_forces_recompute_witness:
  "''positions'' \<in> set [''positions'']
   \<and> \<lparr>compute_id = 0, compute_key = ''positions'', compute_generation = 0, compute_ttl = 5000\<rparr>
       \<in> set (computing (c_run [GetOrCompute ''positions'' 5000 1900]
                 :: (string, string) data_cache))
   \<and> generation (c_run [GetOrCompute ''positions'' 5000 1900, Invalidate [''positions'']]
         :: (string, string) data_cache) ''positions'' = 1
   \<and> entries (c_run [GetOrCompute ''positions'' 5000 1900, Invalidate [''positions''],
         ComputeSettles 0 (Inr ''V_old'') 2500]) ''positions'' = None
   \<and> computes (c_run [GetOrCompute ''positions'' 5000 1900, Invalidate [''positions''],
         ComputeSettles 0 (Inr ''V_old'') 2500, GetOrCompute ''positions'' 5000 2600])
       = [''positions'', ''positions'']
   \<and> returned (c_run [GetOrCompute ''positions'' 5000 1900, Invalidate [''positions''],
         ComputeSettles 0 (Inr ''V_old'') 2500, GetOrCompute ''positions'' 5000 2600,
         ComputeSettles 1 (Inr ''V_new'') 2700])
       = [(0, Inr ''V_old''), (1, Inr ''V_new'')]"
  using invalidate_forces_recompute
    [where k = "''positions''" and tag = "[''positions'']"
       and inputs = "[GetOrCompute ''positions'' 5000 1900] :: (string, string) cache_input list"
       and now = 2600 and t = 5000 and later = "[]" and outcome = "Inr ''V_old''"
       and now' = 2500]
  by (simp add: c_run_def getOrCompute_def compute_settles_def invalidate_def
      deliver_def empty_cache_def fresh_value_def fresh_def in_flight_for_def)







section \<open>Failures do not cascade\<close>



end
